theory Spec2Isabelle
  imports Main
begin

section \<open>Shared vocabulary of the annotation tool's client\<close>

text \<open>
  The repository's sources are the React pages of the annotation tool. Every handler
  is modelled as a function from the component state (and the replies of the HTTP
  endpoints it awaits) to the new state and the list of requests it issued, in order.
  A rejected promise is a value: \<open>Rejected status detail\<close> carries
  \<^verbatim>\<open>err.response?.status\<close> and \<^verbatim>\<open>err.response?.data?.detail\<close>.
\<close>

datatype 'a reply = Resolved 'a | Rejected "nat option" "string option"

datatype ann_status = InProgress | Completed | Skipped

datatype review_state = Approved | ReworkRequested | ReworkCompleted

text \<open>\<^verbatim>\<open>detail || fallback\<close>: a missing or empty string is falsy.\<close>

definition js_or_str :: "string option \<Rightarrow> string \<Rightarrow> string" where
  "js_or_str d fallback = (case d of None \<Rightarrow> fallback | Some s \<Rightarrow> if s = [] then fallback else s)"

text \<open>\<^verbatim>\<open>String.prototype.includes\<close>.\<close>

fun starts_with :: "string \<Rightarrow> string \<Rightarrow> bool" where
  "starts_with s [] = True"
| "starts_with [] (p # ps) = False"
| "starts_with (c # cs) (p # ps) = (c = p \<and> starts_with cs ps)"

fun str_includes :: "string \<Rightarrow> string \<Rightarrow> bool" where
  "str_includes [] p = (p = [])"
| "str_includes (c # cs) p = (starts_with (c # cs) p \<or> str_includes cs p)"

text \<open>
  An annotation as the annotator endpoints return it (\<open>task.current_annotation\<close>,
  \<open>cat.annotation\<close>). A field the server may send as \<^verbatim>\<open>null\<close> is an option.
\<close>

record annotation =
  selected_option_ids :: "nat list option"
  is_duplicate :: "bool option"
  status :: "ann_status option"
  review_status :: "review_state option"
  is_rework :: bool
  time_spent_seconds :: "int option"

section \<open>The category-scoped annotation page (AnnotationPage)\<close>

text \<open>Of a task only the fields the handlers read are kept.\<close>

record task_data =
  image_id :: nat
  total_images :: int
  current_annotation :: "annotation option"

record resume_info =
  index :: int
  queue_size :: int

record annotate_body =
  body_selected_option_ids :: "nat list"
  body_is_duplicate :: "bool option"
  body_status :: ann_status
  body_time_spent_seconds :: int

datatype ap_effect =
    GetTask int
  | GetResumeIndex
  | GetQueueSize
  | PutAnnotate nat annotate_body
  | NavigateAnnotator

record ap_env =
  task_reply :: "int \<Rightarrow> task_data reply"
  resume_reply :: "resume_info reply"
  size_reply :: "int reply"
  put_reply :: "nat \<Rightarrow> annotate_body \<Rightarrow> unit reply"

record ap_state =
  task :: "task_data option"
  selectedOptions :: "nat list"
  isDuplicate :: "bool option"
  queueIndex :: int
  loading :: bool
  saving :: bool
  error :: string
  allDone :: bool
  elapsedSeconds :: int
  savingRef :: bool

text \<open>
  \<^verbatim>\<open>prev.includes(optionId) ? prev.filter((id) => id !== optionId) : [...prev, optionId]\<close>
\<close>

definition toggleOption :: "nat \<Rightarrow> nat list \<Rightarrow> nat list" where
  "toggleOption optionId prev =
     (if optionId \<in> set prev then filter (\<lambda>i. i \<noteq> optionId) prev else prev @ [optionId])"

text \<open>
  \<open>loadTask\<close>: the three setters before the request, the restore of the previous
  selections and timer on success, the discrimination of a 404 by its detail, and
  \<^verbatim>\<open>setLoading(false)\<close> in the \<^verbatim>\<open>finally\<close>.
\<close>

definition restore_annotation :: "annotation option \<Rightarrow> ap_state \<Rightarrow> ap_state" where
  "restore_annotation ca st =
     (case ca of
        Some a \<Rightarrow>
          st\<lparr>selectedOptions := (case selected_option_ids a of Some xs \<Rightarrow> xs | None \<Rightarrow> []),
             isDuplicate := is_duplicate a,
             elapsedSeconds := (case time_spent_seconds a of Some n \<Rightarrow> n | None \<Rightarrow> 0)\<rparr>
      | None \<Rightarrow> st\<lparr>selectedOptions := [], isDuplicate := None, elapsedSeconds := 0\<rparr>)"

definition task_failure :: "nat option \<Rightarrow> string option \<Rightarrow> ap_state \<Rightarrow> ap_state" where
  "task_failure code d st =
     (if code = Some 404 then
        (let detail = js_or_str d [] in
         if str_includes detail ''all completed'' \<or> str_includes detail ''No images''
         then st\<lparr>allDone := True\<rparr>
         else st\<lparr>error := js_or_str (Some detail) ''No more images.''\<rparr>)
      else st\<lparr>error := js_or_str d ''Failed to load task''\<rparr>)"

definition loadTask :: "ap_env \<Rightarrow> int \<Rightarrow> ap_state \<Rightarrow> ap_state \<times> ap_effect list" where
  "loadTask env i st =
     (let st0 = st\<lparr>loading := True, error := [], allDone := False\<rparr> in
      (case task_reply env i of
         Resolved d \<Rightarrow>
           ((restore_annotation (current_annotation d)
               (st0\<lparr>task := Some d, queueIndex := i\<rparr>))\<lparr>loading := False\<rparr>,
            [GetTask i])
       | Rejected code d \<Rightarrow> ((task_failure code d st0)\<lparr>loading := False\<rparr>, [GetTask i])))"

text \<open>
  \<open>saveAnnotation\<close> returns whether the PUT succeeded. Without a task, or while a
  save is in flight, it returns \<^verbatim>\<open>false\<close> and sends nothing.
\<close>

definition save_body :: "ann_status \<Rightarrow> ap_state \<Rightarrow> annotate_body" where
  "save_body stat st =
     \<lparr>body_selected_option_ids = selectedOptions st,
      body_is_duplicate = isDuplicate st,
      body_status = stat,
      body_time_spent_seconds = elapsedSeconds st\<rparr>"

definition saveAnnotation ::
  "ap_env \<Rightarrow> ann_status \<Rightarrow> ap_state \<Rightarrow> bool \<times> ap_state \<times> ap_effect list" where
  "saveAnnotation env stat st =
     (case task st of
        None \<Rightarrow> (False, st, [])
      | Some t \<Rightarrow>
          if savingRef st then (False, st, [])
          else
            (case put_reply env (image_id t) (save_body stat st) of
               Resolved u \<Rightarrow>
                 (True, st\<lparr>saving := False, savingRef := False\<rparr>,
                  [PutAnnotate (image_id t) (save_body stat st)])
             | Rejected code d \<Rightarrow>
                 (False,
                  st\<lparr>error := js_or_str d ''Failed to save'', saving := False, savingRef := False\<rparr>,
                  [PutAnnotate (image_id t) (save_body stat st)])))"

text \<open>
  After a save, \<open>handleNext\<close> and \<open>handleSkip\<close> continue from the state the
  handler closed over: \<open>queueIndex\<close> and \<open>task\<close> are those of the render that
  created the handler.
\<close>

definition resume_or_finish :: "ap_env \<Rightarrow> ap_state \<Rightarrow> ap_state \<times> ap_effect list" where
  "resume_or_finish env st =
     (case resume_reply env of
        Rejected code d \<Rightarrow> (st, [GetResumeIndex, NavigateAnnotator])
      | Resolved r \<Rightarrow>
          if queue_size r = 0 then (st\<lparr>allDone := True\<rparr>, [GetResumeIndex])
          else (let (st', eff) = loadTask env (index r) st in (st', GetResumeIndex # eff)))"

definition handleNext :: "ap_env \<Rightarrow> ap_state \<Rightarrow> ap_state \<times> ap_effect list" where
  "handleNext env st =
     (let (ok, st1, eff1) = saveAnnotation env Completed st in
      if \<not> ok then (st1, eff1)
      else
        (let nextIndex = queueIndex st + 1 in
         case size_reply env of
           Rejected code d \<Rightarrow> (st1, eff1 @ [GetQueueSize, NavigateAnnotator])
         | Resolved newSize \<Rightarrow>
             if newSize = 0 \<or> newSize \<le> nextIndex then
               (let (st2, eff2) = resume_or_finish env st1 in (st2, eff1 @ GetQueueSize # eff2))
             else
               (let (st2, eff2) = loadTask env nextIndex st1 in (st2, eff1 @ GetQueueSize # eff2))))"

definition alreadyCompleted :: "ap_state \<Rightarrow> bool" where
  "alreadyCompleted st =
     (case task st of
        None \<Rightarrow> False
      | Some t \<Rightarrow> (case current_annotation t of None \<Rightarrow> False | Some a \<Rightarrow> status a = Some Completed))"

definition skip_move :: "ap_env \<Rightarrow> task_data \<Rightarrow> ap_state \<Rightarrow> ap_state \<times> ap_effect list" where
  "skip_move env t st =
     (if queueIndex st < total_images t - 1 then loadTask env (queueIndex st + 1) st
      else resume_or_finish env st)"

text \<open>
  \<open>handleSkip\<close>. With no task the guard is false, \<open>saveAnnotation\<close> returns
  \<^verbatim>\<open>false\<close> and the handler returns before it reads \<^verbatim>\<open>task.total_images\<close>.
\<close>

definition handleSkip :: "ap_env \<Rightarrow> ap_state \<Rightarrow> ap_state \<times> ap_effect list" where
  "handleSkip env st =
     (case task st of
        None \<Rightarrow> (st, [])
      | Some t \<Rightarrow>
          if \<not> alreadyCompleted st then
            (let (ok, st1, eff1) = saveAnnotation env Skipped st in
             if \<not> ok then (st1, eff1)
             else (let (st2, eff2) = skip_move env t st1 in (st2, eff1 @ eff2)))
          else skip_move env t st)"

text \<open>
  The writes among the requests of a handler, and what a server that handles a
  write with \<open>put\<close> holds after them. The server is a parameter: its code is not
  part of the client.
\<close>

fun is_write :: "ap_effect \<Rightarrow> bool" where
  "is_write (PutAnnotate i b) = True"
| "is_write e = False"

fun apply_effects :: "(nat \<Rightarrow> annotate_body \<Rightarrow> 'db \<Rightarrow> 'db) \<Rightarrow> ap_effect list \<Rightarrow> 'db \<Rightarrow> 'db" where
  "apply_effects put [] db = db"
| "apply_effects put (PutAnnotate i b # es) db = apply_effects put es (put i b db)"
| "apply_effects put (e # es) db = apply_effects put es db"

section \<open>The image-scoped annotation page (ImageAnnotationPage)\<close>

text \<open>
  A category of the image as \<^verbatim>\<open>GET /annotator/images/{id}\<close> returns it. An entry of
  \<open>pendingChanges\<close> is the \<open>selected_option_ids\<close> of the object stored under the
  category id (\<^verbatim>\<open>null\<close> when the server sent none).
\<close>

type_synonym pending = "nat list option"

record category_view =
  cat_id :: nat
  cat_name :: string
  cat_annotation :: "annotation option"
  completed_by_other :: bool

record image_data =
  categories :: "category_view list option"
  can_edit :: bool
  is_improper :: bool
  image_is_rework :: bool

datatype ip_effect =
    GetImage nat
  | GetAIDetection nat
  | PutAnnotations nat "nat \<rightharpoonup> pending" int
  | PatchTime nat int

record ip_env =
  image_reply :: "nat \<Rightarrow> image_data reply"
  ai_reply :: "nat \<Rightarrow> bool option reply"
  save_reply :: "nat \<Rightarrow> (nat \<rightharpoonup> pending) \<Rightarrow> int \<Rightarrow> unit reply"

record ip_state =
  data :: "image_data option"
  loading_img :: bool
  saving_img :: bool
  error_img :: string
  pendingChanges :: "nat \<rightharpoonup> pending"
  isAIGenerated :: "bool option"
  maxAnnotationTime :: int
  maxReworkTime :: int
  isReworkMode :: bool
  elapsedSeconds_img :: int
  showTimeWarning :: bool

subsection \<open>CategoryDropdown\<close>

text \<open>
  \<^verbatim>\<open>annotation?.selected_option_ids?.[0] || null\<close>: the first stored id, when it is
  truthy.
\<close>

definition initialSelected :: "annotation option \<Rightarrow> nat option" where
  "initialSelected ann =
     (case ann of
        None \<Rightarrow> None
      | Some a \<Rightarrow>
          (case selected_option_ids a of
             None \<Rightarrow> None
           | Some [] \<Rightarrow> None
           | Some (x # xs) \<Rightarrow> if x = 0 then None else Some x))"

text \<open>
  \<open>selectOption\<close> returns the new \<open>selectedOption\<close> and the argument it hands to
  \<open>onChange\<close> (nothing when the dropdown is disabled). The array is built with
  \<^verbatim>\<open>newSelected ? [newSelected] : []\<close>, so the number 0 counts as no selection.
\<close>

definition selectOption :: "bool \<Rightarrow> nat option \<Rightarrow> nat \<Rightarrow> nat option \<times> nat list option" where
  "selectOption disabled selectedOption optionId =
     (if disabled then (selectedOption, None)
      else
        (let newSelected = (if selectedOption = Some optionId then None else Some optionId) in
         (newSelected,
          Some (case newSelected of None \<Rightarrow> [] | Some n \<Rightarrow> if n = 0 then [] else [n]))))"

definition handleCategoryChange :: "nat \<Rightarrow> pending \<Rightarrow> ip_state \<Rightarrow> ip_state" where
  "handleCategoryChange categoryId v st = st\<lparr>pendingChanges := (pendingChanges st)(categoryId \<mapsto> v)\<rparr>"

subsection \<open>Timer\<close>


definition timerTick :: "ip_state \<Rightarrow> ip_state" where
  "timerTick st = st\<lparr>elapsedSeconds_img := elapsedSeconds_img st + 1\<rparr>"


text \<open>\<open>persistTime\<close>: fire-and-forget; nothing is sent without an image id or for \<open>seconds <= 0\<close>.\<close>

definition persistTime :: "nat option \<Rightarrow> int \<Rightarrow> ip_effect list" where
  "persistTime imgId seconds =
     (case imgId of None \<Rightarrow> [] | Some i \<Rightarrow> if seconds \<le> 0 then [] else [PatchTime i seconds])"

subsection \<open>loadImage\<close>

text \<open>The \<^verbatim>\<open>forEach\<close> over the categories: the entries of \<open>initial\<close> and \<open>maxSavedTime\<close>.\<close>

fun initial_changes :: "category_view list \<Rightarrow> (nat \<rightharpoonup> pending) \<Rightarrow> (nat \<rightharpoonup> pending)" where
  "initial_changes [] m = m"
| "initial_changes (c # cs) m =
     initial_changes cs
       (case cat_annotation c of None \<Rightarrow> m | Some a \<Rightarrow> m(cat_id c \<mapsto> selected_option_ids a))"

fun maxSavedTime :: "category_view list \<Rightarrow> int \<Rightarrow> int" where
  "maxSavedTime [] m = m"
| "maxSavedTime (c # cs) m =
     maxSavedTime cs
       (case cat_annotation c of
          None \<Rightarrow> m
        | Some a \<Rightarrow> (case time_spent_seconds a of None \<Rightarrow> m | Some t \<Rightarrow> if m < t then t else m))"

definition hasRework :: "image_data \<Rightarrow> category_view list \<Rightarrow> bool" where
  "hasRework d cats =
     (image_is_rework d \<or>
      list_ex (\<lambda>c. case cat_annotation c of
                      None \<Rightarrow> False
                    | Some a \<Rightarrow> review_status a = Some ReworkRequested \<or> is_rework a) cats)"

text \<open>
  \<open>loadImage\<close> is created once (\<^verbatim>\<open>useCallback(..., [])\<close>), so the limits it compares
  with are those of the first render, 120 and 120. A reply without \<open>categories\<close> makes
  \<^verbatim>\<open>forEach\<close> throw after \<^verbatim>\<open>setData\<close>; the \<^verbatim>\<open>catch\<close> then reports the failure.
\<close>

definition loadImage :: "ip_env \<Rightarrow> nat \<Rightarrow> ip_state \<Rightarrow> ip_state \<times> ip_effect list" where
  "loadImage env i st =
     (let st0 = st\<lparr>loading_img := True, error_img := [], pendingChanges := Map.empty\<rparr> in
      (case image_reply env i of
         Rejected code d \<Rightarrow>
           (st0\<lparr>error_img := js_or_str d ''Failed to load image'', loading_img := False\<rparr>, [GetImage i])
       | Resolved d \<Rightarrow>
           (case categories d of
              None \<Rightarrow>
                (st0\<lparr>data := Some d, error_img := ''Failed to load image'', loading_img := False\<rparr>,
                 [GetImage i])
            | Some cats \<Rightarrow>
                (let saved = maxSavedTime cats 0;
                     rework = hasRework d cats;
                     effectiveMaxTime = (if rework then 120 else 120)
                 in (st0\<lparr>data := Some d,
                         pendingChanges := initial_changes cats Map.empty,
                         isAIGenerated := (case ai_reply env i of Resolved v \<Rightarrow> v | Rejected c e \<Rightarrow> None),
                         isReworkMode := rework,
                         elapsedSeconds_img := saved,
                         showTimeWarning := (effectiveMaxTime \<le> saved),
                         loading_img := False\<rparr>,
                     [GetImage i, GetAIDetection i])))))"

subsection \<open>Validation and save\<close>

text \<open>\<^verbatim>\<open>Array.prototype.join\<close>.\<close>

fun join :: "string \<Rightarrow> string list \<Rightarrow> string" where
  "join sep [] = []"
| "join sep [x] = x"
| "join sep (x # y # ys) = x @ sep @ join sep (y # ys)"

text \<open>
  The loop of \<open>validateAllCategoriesSelected\<close>: a category completed by another
  annotator for which nothing is pending is passed over; otherwise its name is pushed
  when it has no pending entry, no \<open>selected_option_ids\<close>, or an empty list.
\<close>

definition passed_over :: "(nat \<rightharpoonup> pending) \<Rightarrow> category_view \<Rightarrow> bool" where
  "passed_over pc c = (completed_by_other c \<and> pc (cat_id c) = None)"

definition lacks_selection :: "(nat \<rightharpoonup> pending) \<Rightarrow> category_view \<Rightarrow> bool" where
  "lacks_selection pc c =
     (case pc (cat_id c) of None \<Rightarrow> True | Some None \<Rightarrow> True | Some (Some xs) \<Rightarrow> xs = [])"

fun missing_loop :: "(nat \<rightharpoonup> pending) \<Rightarrow> category_view list \<Rightarrow> string list \<Rightarrow> string list" where
  "missing_loop pc [] missing = missing"
| "missing_loop pc (c # cs) missing =
     (if passed_over pc c then missing_loop pc cs missing
      else if lacks_selection pc c then missing_loop pc cs (missing @ [cat_name c])
      else missing_loop pc cs missing)"

definition validateAllCategoriesSelected :: "ip_state \<Rightarrow> bool \<times> string list" where
  "validateAllCategoriesSelected st =
     (case data st of
        None \<Rightarrow> (False, [])
      | Some d \<Rightarrow>
          (case categories d of
             None \<Rightarrow> (False, [])
           | Some cats \<Rightarrow>
               (let missing = missing_loop (pendingChanges st) cats [] in (missing = [], missing))))"

definition save_allowed :: "ip_state \<Rightarrow> bool" where
  "save_allowed st =
     (\<not> saving_img st \<and> (case data st of None \<Rightarrow> False | Some d \<Rightarrow> can_edit d \<and> \<not> is_improper d))"

definition handleSave :: "ip_env \<Rightarrow> nat \<Rightarrow> ip_state \<Rightarrow> bool \<times> ip_state \<times> ip_effect list" where
  "handleSave env imageId st =
     (if \<not> save_allowed st then (False, st, [])
      else
        (let (valid, missing) = validateAllCategoriesSelected st in
         if \<not> valid then
           (False, st\<lparr>error_img := ''Please select an option for: '' @ join '', '' missing\<rparr>, [])
         else
           (case save_reply env imageId (pendingChanges st) (elapsedSeconds_img st) of
              Resolved u \<Rightarrow>
                (let (st1, eff) = loadImage env imageId (st\<lparr>saving_img := True, error_img := []\<rparr>)
                 in (True, st1\<lparr>saving_img := False\<rparr>,
                     PutAnnotations imageId (pendingChanges st) (elapsedSeconds_img st) # eff))
            | Rejected code d \<Rightarrow>
                (False, st\<lparr>error_img := js_or_str d ''Failed to save'', saving_img := False\<rparr>,
                 [PutAnnotations imageId (pendingChanges st) (elapsedSeconds_img st)]))))"

section \<open>The admin review tab (AdminDashboard)\<close>

text \<open>
  A cell of the review table is the annotation of one image for one category;
  \<open>selected_options\<close> holds the ids of its option objects. A row maps category ids
  to cells (\<^verbatim>\<open>row.annotations[String(cat.id)]\<close>).
\<close>

record cell =
  annotation_id :: nat
  cell_review_status :: "review_state option"
  selected_options :: "nat list"
  cell_is_duplicate :: "bool option"

record edit =
  selections :: "nat list"
  edit_isDuplicate :: "bool option"

record table_row =
  row_image_id :: nat
  annotations :: "nat \<rightharpoonup> cell"

record table_data =
  images :: "table_row list"
  table_categories :: "nat list"

datatype admin_effect = PutApprove nat | Alert string | RefreshData

text \<open>\<open>handleApprove\<close>: a rejected request is caught and shown with \<^verbatim>\<open>alert\<close>.\<close>

definition handleApprove :: "(nat \<Rightarrow> unit reply) \<Rightarrow> nat \<Rightarrow> admin_effect list" where
  "handleApprove approve_reply annotationId =
     (case approve_reply annotationId of
        Resolved u \<Rightarrow> [PutApprove annotationId]
      | Rejected code d \<Rightarrow> [PutApprove annotationId, Alert (js_or_str d ''Failed'')])"

subsection \<open>ImageDetailModal\<close>

definition hasChangesForCat :: "table_row \<Rightarrow> (nat \<rightharpoonup> edit) \<Rightarrow> nat \<Rightarrow> bool" where
  "hasChangesForCat row edits catId =
     (case annotations row catId of
        None \<Rightarrow> False
      | Some c \<Rightarrow>
          (case edits catId of
             None \<Rightarrow> False
           | Some e \<Rightarrow>
               length (selections e) \<noteq> card (set (selected_options c))
               \<or> list_ex (\<lambda>i. i \<notin> set (selected_options c)) (selections e)
               \<or> edit_isDuplicate e \<noteq> cell_is_duplicate c))"

text \<open>
  \<open>pendingAnnotations\<close>: the cells of the row, in category order, whose
  \<open>review_status\<close> is not \<open>approved\<close>.
\<close>

fun pendingAnnotations :: "nat list \<Rightarrow> table_row \<Rightarrow> cell list" where
  "pendingAnnotations [] row = []"
| "pendingAnnotations (cat # cats) row =
     (case annotations row cat of
        None \<Rightarrow> pendingAnnotations cats row
      | Some c \<Rightarrow>
          if cell_review_status c \<noteq> Some Approved then c # pendingAnnotations cats row
          else pendingAnnotations cats row)"

text \<open>
  \<open>handleApproveAll\<close> awaits \<open>onApprove\<close> for each pending cell in turn, skipping
  a cell for which \<^verbatim>\<open>hasChangesForCat(String(cell.annotation_id))\<close> holds. The modal's
  \<open>onApprove\<close> is \<open>handleApprove\<close> followed by \<open>refreshData\<close>.
\<close>

fun approve_each :: "(nat \<Rightarrow> unit reply) \<Rightarrow> table_row \<Rightarrow> (nat \<rightharpoonup> edit) \<Rightarrow> cell list \<Rightarrow> admin_effect list" where
  "approve_each approve_reply row edits [] = []"
| "approve_each approve_reply row edits (c # cs) =
     (if hasChangesForCat row edits (annotation_id c) then approve_each approve_reply row edits cs
      else handleApprove approve_reply (annotation_id c) @ [RefreshData]
           @ approve_each approve_reply row edits cs)"

definition handleApproveAll ::
  "(nat \<Rightarrow> unit reply) \<Rightarrow> nat list \<Rightarrow> table_row \<Rightarrow> (nat \<rightharpoonup> edit) \<Rightarrow> admin_effect list" where
  "handleApproveAll approve_reply cats row edits =
     approve_each approve_reply row edits (pendingAnnotations cats row)"

subsection \<open>Bulk approve\<close>

text \<open>
  The two loops of \<open>handleBulkApprove\<close>: for every selected image id whose row is in
  the table, one request per category cell whose \<open>review_status\<close> is falsy.
\<close>

fun row_requests :: "table_row \<Rightarrow> nat list \<Rightarrow> nat list" where
  "row_requests row [] = []"
| "row_requests row (cat # cats) =
     (case annotations row cat of
        None \<Rightarrow> row_requests row cats
      | Some c \<Rightarrow>
          if cell_review_status c = None then annotation_id c # row_requests row cats
          else row_requests row cats)"

fun bulk_requests :: "table_data \<Rightarrow> nat list \<Rightarrow> nat list" where
  "bulk_requests td [] = []"
| "bulk_requests td (imgId # ids) =
     (case find (\<lambda>r. row_image_id r = imgId) (images td) of
        None \<Rightarrow> bulk_requests td ids
      | Some row \<Rightarrow> row_requests row (table_categories td) @ bulk_requests td ids)"

fun is_resolved :: "'a reply \<Rightarrow> bool" where
  "is_resolved (Resolved x) = True"
| "is_resolved (Rejected code d) = False"

text \<open>
  \<open>handleBulkApprove\<close> returns the requests it sent, what it showed, and the new
  selection. Every request is sent before \<^verbatim>\<open>Promise.all\<close> is awaited; if one is
  rejected the \<^verbatim>\<open>catch\<close> shows one alert and the selection is kept.
\<close>

definition handleBulkApprove ::
  "(nat \<Rightarrow> unit reply) \<Rightarrow> table_data option \<Rightarrow> nat list \<Rightarrow> admin_effect list \<times> nat list" where
  "handleBulkApprove approve_reply tableData selectedRows =
     (case tableData of
        None \<Rightarrow> ([], selectedRows)
      | Some td \<Rightarrow>
          (let ids = bulk_requests td selectedRows in
           if list_all (\<lambda>i. is_resolved (approve_reply i)) ids
           then (map PutApprove ids @ [RefreshData], [])
           else (map PutApprove ids @ [Alert ''Some approvals failed''], selectedRows)))"

text \<open>What the admin is shown by a run of \<open>handleBulkApprove\<close>: its alerts.\<close>

fun alerts :: "admin_effect list \<Rightarrow> string list" where
  "alerts [] = []"
| "alerts (Alert m # es) = m # alerts es"
| "alerts (e # es) = alerts es"

fun approve_ids :: "admin_effect list \<Rightarrow> nat list" where
  "approve_ids [] = []"
| "approve_ids (PutApprove i # es) = i # approve_ids es"
| "approve_ids (e # es) = approve_ids es"

section \<open>The review engine behind the endpoints\<close>

datatype engine_error =
  ValidationError | ConflictError | StateError | AuthorizationError | NotFoundError

text \<open>
  Modelled from the spec: the stored Annotation of section 3 (the server's table is not
  among the sources). Only the attributes the modelled operations read or write.
\<close>

record annotation_row =
  row_status :: ann_status
  row_review_status :: "review_state option"
  row_is_rework :: bool
  row_time_spent_seconds :: int

text \<open>
  Modelled from the spec: the handler of
  \<^verbatim>\<open>PUT /annotator/categories/{c}/images/{id}/annotate\<close> for one annotator and
  category, which is not among the sources; the store maps an image id to what was
  last accepted for it. Section 4.3: Skip is allowed only when the record is not
  already completed; an illegal transition raises \<open>StateError\<close> and changes nothing
  (section 7). Any other write stores the submitted content and status. The lock of
  an approved record is left out.
\<close>

definition annotate_handler ::
  "nat \<Rightarrow> annotate_body \<Rightarrow> (nat \<rightharpoonup> annotate_body) \<Rightarrow> (engine_error + unit) \<times> (nat \<rightharpoonup> annotate_body)" where
  "annotate_handler i b db =
     (if body_status b = Skipped
         \<and> (case db i of None \<Rightarrow> False | Some r \<Rightarrow> body_status r = Completed)
      then (Inl StateError, db)
      else (Inr (), db(i \<mapsto> b)))"

definition annotate_store :: "nat \<Rightarrow> annotate_body \<Rightarrow> (nat \<rightharpoonup> annotate_body) \<Rightarrow> (nat \<rightharpoonup> annotate_body)" where
  "annotate_store i b db = snd (annotate_handler i b db)"

text \<open>
  Modelled from the spec: \<open>Approve\<close> of section 4.3, the handler of
  \<^verbatim>\<open>PUT /admin/review/{id}/approve\<close>, which is not among the sources. It is allowed
  only when \<open>review_status\<close> is null or \<open>rework_completed\<close>; any other state is an
  illegal transition and raises \<open>StateError\<close>.
\<close>

definition approve_row :: "annotation_row \<Rightarrow> engine_error + annotation_row" where
  "approve_row a =
     (if row_review_status a = None \<or> row_review_status a = Some ReworkCompleted
      then Inr (a\<lparr>row_review_status := Some Approved\<rparr>)
      else Inl StateError)"

text \<open>
  Modelled from the spec: \<open>Approve(adminId, annotationId)\<close> on the store; an unknown id
  is a \<open>NotFoundError\<close> (section 7).
\<close>

definition Approve :: "(nat \<rightharpoonup> annotation_row) \<Rightarrow> nat \<Rightarrow> engine_error + (nat \<rightharpoonup> annotation_row)" where
  "Approve db annotationId =
     (case db annotationId of
        None \<Rightarrow> Inl NotFoundError
      | Some a \<Rightarrow> (case approve_row a of Inl e \<Rightarrow> Inl e | Inr a' \<Rightarrow> Inr (db(annotationId \<mapsto> a'))))"

text \<open>
  Modelled from the spec: a sequence of admin approve operations, each applied to the
  store the previous ones left; a rejected operation leaves the store as it was. The
  result records, per operation, the id and the error if any.
\<close>

fun approve_run ::
  "(nat \<rightharpoonup> annotation_row) \<Rightarrow> nat list \<Rightarrow> (nat \<times> engine_error option) list \<times> (nat \<rightharpoonup> annotation_row)" where
  "approve_run db [] = ([], db)"
| "approve_run db (i # is) =
     (case Approve db i of
        Inl e \<Rightarrow> (let (rs, db') = approve_run db is in ((i, Some e) # rs, db'))
      | Inr db1 \<Rightarrow> (let (rs, db') = approve_run db1 is in ((i, None) # rs, db')))"

text \<open>
  Modelled from the spec: \<open>RecordElapsed\<close> of section 4.6, the handler of
  \<^verbatim>\<open>PATCH /annotator/images/{id}/time\<close>, which is not among the sources. The two caps
  are configuration.
\<close>

record time_limits =
  max_annotation_time_seconds :: int
  max_rework_time_seconds :: int

definition capForMode :: "time_limits \<Rightarrow> annotation_row \<Rightarrow> int" where
  "capForMode cfg a =
     (if row_is_rework a then max_rework_time_seconds cfg else max_annotation_time_seconds cfg)"

definition RecordElapsed :: "time_limits \<Rightarrow> annotation_row \<Rightarrow> int \<Rightarrow> annotation_row" where
  "RecordElapsed cfg a rawSeconds =
     a\<lparr>row_time_spent_seconds := max (row_time_spent_seconds a) (min rawSeconds (capForMode cfg a))\<rparr>"

text \<open>
  Modelled from the spec: the reports of one annotation's elapsed time, each applied
  by \<open>RecordElapsed\<close> to what the previous ones left (the client reports every ten
  seconds and on leaving the image). \<open>record_trace\<close> lists the stored time after
  each report.
\<close>

fun record_run :: "time_limits \<Rightarrow> annotation_row \<Rightarrow> int list \<Rightarrow> annotation_row" where
  "record_run cfg a [] = a"
| "record_run cfg a (r # rs) = record_run cfg (RecordElapsed cfg a r) rs"


text \<open>
  Modelled from the spec: the category-scoped resolver of section 4.2, which is not
  among the sources. The queue is the list of the images' authoritative statuses in
  ascending image id (\<open>None\<close>: no row). \<open>ResumeIndex\<close> is the index of the first image
  that is not completed, and the queue's size when there is none; \<open>TaskAt\<close> fails with
  \<open>NotFoundError\<close> outside the queue.
\<close>

fun ResumeIndex :: "ann_status option list \<Rightarrow> nat" where
  "ResumeIndex [] = 0"
| "ResumeIndex (s # q) = (if s = Some Completed then Suc (ResumeIndex q) else 0)"






section \<open>Auxiliary notions and sample inputs\<close>

text \<open>The \<open>time_spent_seconds\<close> that the categories of an image carry, in order.\<close>

fun stored_times :: "category_view list \<Rightarrow> int list" where
  "stored_times [] = []"
| "stored_times (c # cs) =
     (case cat_annotation c of
        None \<Rightarrow> stored_times cs
      | Some a \<Rightarrow> (case time_spent_seconds a of None \<Rightarrow> stored_times cs | Some t \<Rightarrow> t # stored_times cs))"

text \<open>A server that keeps every write it receives.\<close>

definition log_put :: "nat \<Rightarrow> annotate_body \<Rightarrow> (nat \<times> annotate_body) list \<Rightarrow> (nat \<times> annotate_body) list" where
  "log_put i b db = (i, b) # db"

text \<open>
  A completed annotation, the task that shows it as the last of ten images, and a
  server whose queue is exhausted.
\<close>

definition ex_annotation :: annotation where
  "ex_annotation =
     \<lparr>selected_option_ids = Some [3], is_duplicate = Some False, status = Some Completed,
      review_status = None, is_rework = False, time_spent_seconds = Some 12\<rparr>"

definition ex_task :: task_data where
  "ex_task = \<lparr>image_id = 7, total_images = 10, current_annotation = Some ex_annotation\<rparr>"

definition ex_ap_state :: ap_state where
  "ex_ap_state =
     \<lparr>task = Some ex_task, selectedOptions = [3], isDuplicate = Some False, queueIndex = 9,
      loading = False, saving = False, error = [], allDone = False, elapsedSeconds = 40,
      savingRef = False\<rparr>"

definition ex_task_reply :: "int \<Rightarrow> task_data reply" where
  "ex_task_reply i = Rejected (Some 404) (Some ''Images all completed'')"

definition ex_put_reply :: "nat \<Rightarrow> annotate_body \<Rightarrow> unit reply" where
  "ex_put_reply i b = Resolved ()"

definition ex_ap_env :: ap_env where
  "ex_ap_env =
     \<lparr>task_reply = ex_task_reply, resume_reply = Resolved \<lparr>index = 10, queue_size = 10\<rparr>,
      size_reply = Resolved 10, put_reply = ex_put_reply\<rparr>"

text \<open>
  An image with three categories: two annotated by this annotator (12 and 30
  seconds), one completed by another annotator and untouched by this one.
\<close>

definition ex_categories :: "category_view list" where
  "ex_categories =
     [\<lparr>cat_id = 1, cat_name = ''Lighting'', cat_annotation = Some ex_annotation,
       completed_by_other = False\<rparr>,
      \<lparr>cat_id = 2, cat_name = ''Pose'',
       cat_annotation = Some (ex_annotation\<lparr>time_spent_seconds := Some 30\<rparr>),
       completed_by_other = False\<rparr>,
      \<lparr>cat_id = 3, cat_name = ''Breed'', cat_annotation = None, completed_by_other = True\<rparr>]"

definition ex_image :: image_data where
  "ex_image =
     \<lparr>categories = Some ex_categories, can_edit = True, is_improper = False,
      image_is_rework = False\<rparr>"

definition ex_image_reply :: "nat \<Rightarrow> image_data reply" where
  "ex_image_reply i = Resolved ex_image"

definition ex_ai_reply :: "nat \<Rightarrow> bool option reply" where
  "ex_ai_reply i = Resolved None"

definition ex_save_reply :: "nat \<Rightarrow> (nat \<rightharpoonup> pending) \<Rightarrow> int \<Rightarrow> unit reply" where
  "ex_save_reply i pc t = Resolved ()"

definition ex_ip_env :: ip_env where
  "ex_ip_env = \<lparr>image_reply = ex_image_reply, ai_reply = ex_ai_reply, save_reply = ex_save_reply\<rparr>"

definition ex_ip_state :: ip_state where
  "ex_ip_state =
     \<lparr>data = Some ex_image, loading_img = False, saving_img = False, error_img = [],
      pendingChanges = [1 \<mapsto> Some [3], 2 \<mapsto> Some [3]], isAIGenerated = None,
      maxAnnotationTime = 120, maxReworkTime = 120, isReworkMode = False,
      elapsedSeconds_img = 45, showTimeWarning = False\<rparr>"


definition forget_time :: "ip_state \<Rightarrow> ip_state" where
  "forget_time st = st\<lparr>elapsedSeconds_img := 0, showTimeWarning := False\<rparr>"



text \<open>
  The categories a submission must still fill in: those that validation does not pass
  over and that have no selected option.
\<close>

definition unselected :: "(nat \<rightharpoonup> pending) \<Rightarrow> category_view list \<Rightarrow> category_view list" where
  "unselected pc cats = filter (\<lambda>c. \<not> passed_over pc c \<and> lacks_selection pc c) cats"

text \<open>
  The Save and Next button of the category page is disabled while a save runs or
  nothing is selected; the keyboard handler asks for a selection as well.
\<close>

definition clickSaveNext :: "ap_env \<Rightarrow> ap_state \<Rightarrow> ap_state \<times> ap_effect list" where
  "clickSaveNext env st = (if saving st \<or> selectedOptions st = [] then (st, []) else handleNext env st)"

definition keySaveNext :: "ap_env \<Rightarrow> ap_state \<Rightarrow> ap_state \<times> ap_effect list" where
  "keySaveNext env st =
     (if savingRef st then (st, [])
      else if selectedOptions st \<noteq> [] then handleNext env st else (st, []))"

text \<open>The sample image page with the selection of category 2 cleared.\<close>

definition ex_ip_missing :: ip_state where
  "ex_ip_missing = ex_ip_state\<lparr>pendingChanges := [1 \<mapsto> Some [3], 2 \<mapsto> Some []]\<rparr>"

text \<open>
  A review table with one image and two pending annotations, 11 and 12, and three
  servers: one approves everything, one rejects the approval of 11, one that of 12.
\<close>

definition ex_cell :: "nat \<Rightarrow> cell" where
  "ex_cell i =
     \<lparr>annotation_id = i, cell_review_status = None, selected_options = [3],
      cell_is_duplicate = Some False\<rparr>"

definition ex_row :: table_row where
  "ex_row = \<lparr>row_image_id = 7, annotations = [1 \<mapsto> ex_cell 11, 2 \<mapsto> ex_cell 12]\<rparr>"

definition ex_table :: table_data where
  "ex_table = \<lparr>images = [ex_row], table_categories = [1, 2]\<rparr>"

definition fail_first :: "nat \<Rightarrow> unit reply" where
  "fail_first i = (if i = 11 then Rejected (Some 400) (Some ''Annotation is already approved'') else Resolved ())"

definition all_succeed :: "nat \<Rightarrow> unit reply" where
  "all_succeed i = Resolved ()"

definition fail_second :: "nat \<Rightarrow> unit reply" where
  "fail_second i = (if i = 12 then Rejected (Some 400) (Some ''Annotation is already approved'') else Resolved ())"

text \<open>The ids whose approval succeeded in the results of a run, in order.\<close>

fun successes :: "(nat \<times> engine_error option) list \<Rightarrow> nat list" where
  "successes [] = []"
| "successes ((i, r) # rs) = (if r = None then i # successes rs else successes rs)"

text \<open>A store with an approved annotation 11 and a submitted, unreviewed annotation 12.\<close>

definition ex_approved :: annotation_row where
  "ex_approved =
     \<lparr>row_status = Completed, row_review_status = Some Approved, row_is_rework = False,
      row_time_spent_seconds = 12\<rparr>"

definition ex_submitted :: annotation_row where
  "ex_submitted =
     \<lparr>row_status = Completed, row_review_status = None, row_is_rework = False,
      row_time_spent_seconds = 0\<rparr>"

definition ex_db :: "nat \<rightharpoonup> annotation_row" where
  "ex_db = [11 \<mapsto> ex_approved, 12 \<mapsto> ex_submitted]"



definition ex_range_reply :: "int \<Rightarrow> task_data reply" where
  "ex_range_reply i = Rejected (Some 404) (Some ''Image index out of range'')"

definition ex_ap_env_range :: ap_env where
  "ex_ap_env_range = ex_ap_env\<lparr>task_reply := ex_range_reply\<rparr>"


text \<open>
  An image whose one category was annotated with two options (the category page
  allows several), the server that returns it, and the image page after loading it.
\<close>

definition ex_multi_categories :: "category_view list" where
  "ex_multi_categories =
     [\<lparr>cat_id = 1, cat_name = ''Lighting'',
       cat_annotation = Some (ex_annotation\<lparr>selected_option_ids := Some [3, 5]\<rparr>),
       completed_by_other = False\<rparr>]"

definition ex_multi_image :: image_data where
  "ex_multi_image =
     \<lparr>categories = Some ex_multi_categories, can_edit = True, is_improper = False,
      image_is_rework = False\<rparr>"

definition ex_multi_reply :: "nat \<Rightarrow> image_data reply" where
  "ex_multi_reply i = Resolved ex_multi_image"

definition ex_multi_env :: ip_env where
  "ex_multi_env = ex_ip_env\<lparr>image_reply := ex_multi_reply\<rparr>"

definition ex_multi_state :: ip_state where
  "ex_multi_state = fst (loadImage ex_multi_env 7 ex_ip_state)"

text \<open>An effect that is no write, or a write with status skipped.\<close>

fun skip_or_read :: "ap_effect \<Rightarrow> bool" where
  "skip_or_read (PutAnnotate i b) = (body_status b = Skipped)"
| "skip_or_read e = True"

text \<open>
  A page on the last image with no annotation yet; the page after Save and Next
  when the next task cannot be loaded, and what the server then holds.
\<close>

definition ex_fresh_state :: ap_state where
  "ex_fresh_state = ex_ap_state\<lparr>task := Some (ex_task\<lparr>current_annotation := None\<rparr>)\<rparr>"

definition ex_after_next :: ap_state where
  "ex_after_next = fst (handleNext ex_ap_env_range ex_fresh_state)"

definition ex_store_after_next :: "nat \<rightharpoonup> annotate_body" where
  "ex_store_after_next =
     apply_effects annotate_store (snd (handleNext ex_ap_env_range ex_fresh_state)) Map.empty"







section \<open>Properties of the category-scoped page\<close>

lemma loadTask_effects: "snd (loadTask env i st) = [GetTask i]"
  by (simp add: loadTask_def Let_def split: reply.splits)

lemma loadTask_effects_eq: "loadTask env i st = (st', eff) \<Longrightarrow> eff = [GetTask i]"
  using loadTask_effects [of env i st] by simp

lemma resume_or_finish_no_write: "filter is_write (snd (resume_or_finish env st)) = []"
  by (auto simp: resume_or_finish_def split: reply.splits prod.splits dest: loadTask_effects_eq)

lemma skip_move_no_write: "filter is_write (snd (skip_move env t st)) = []"
  by (simp add: skip_move_def loadTask_effects resume_or_finish_no_write)

lemma apply_effects_no_write:
  "filter is_write es = [] \<Longrightarrow> apply_effects put es db = db"
  by (induction put es db rule: apply_effects.induct) auto

lemma handleSkip_completed:
  "alreadyCompleted st \<Longrightarrow> filter is_write (snd (handleSkip env st)) = []"
  by (auto simp: handleSkip_def alreadyCompleted_def skip_move_no_write split: option.splits)

subsection \<open>toggleOption\<close>

lemma filter_absent: "i \<notin> set xs \<Longrightarrow> filter (\<lambda>j. j \<noteq> i) xs = xs"
  by (induction xs) auto

lemma toggle_in: "i \<in> set prev \<Longrightarrow> toggleOption i prev = filter (\<lambda>j. j \<noteq> i) prev"
  by (simp add: toggleOption_def)

lemma toggle_out: "i \<notin> set prev \<Longrightarrow> toggleOption i prev = prev @ [i]"
  by (simp add: toggleOption_def)

lemma toggle_twice_in:
  "i \<in> set prev \<Longrightarrow> toggleOption i (toggleOption i prev) = filter (\<lambda>j. j \<noteq> i) prev @ [i]"
  by (simp add: toggle_in toggle_out)

lemma toggle_twice_out: "i \<notin> set prev \<Longrightarrow> toggleOption i (toggleOption i prev) = prev"
  by (simp add: toggle_in toggle_out filter_absent)

lemma toggle_set: "set (toggleOption i (toggleOption i prev)) = set prev"
proof (cases "i \<in> set prev")
  case True
  then show ?thesis by (auto simp: toggle_twice_in)
next
  case False
  then show ?thesis by (simp add: toggle_twice_out)
qed

lemma toggle_distinct: "distinct prev \<Longrightarrow> distinct (toggleOption i prev)"
  by (cases "i \<in> set prev") (simp_all add: toggle_in toggle_out)

text \<open>
  C9 (as amended). \<open>toggleOption\<close> removes the option id when it is in the selection
  and appends it otherwise. For a selection without duplicates, toggling the same id
  twice gives a selection with the same ids and again without duplicates: the list is
  the original when the id was absent, and the original with the id moved to the end
  when it was present.
\<close>

theorem toggleOption_twice:
  "distinct prev \<Longrightarrow>
     toggleOption i prev = (if i \<in> set prev then filter (\<lambda>j. j \<noteq> i) prev else prev @ [i])
   \<and> toggleOption i (toggleOption i prev)
       = (if i \<in> set prev then filter (\<lambda>j. j \<noteq> i) prev @ [i] else prev)
   \<and> set (toggleOption i (toggleOption i prev)) = set prev
   \<and> distinct (toggleOption i prev)
   \<and> distinct (toggleOption i (toggleOption i prev))"
  by (simp add: toggle_in toggle_out toggle_twice_in toggle_twice_out toggle_set toggle_distinct
      filter_absent)

theorem toggleOption_twice_witness:
  "distinct [1, 2 :: nat] \<and> toggleOption 1 [1, 2] = [2]
   \<and> toggleOption 1 (toggleOption 1 [1, 2]) = [2, 1]
   \<and> set (toggleOption 1 (toggleOption 1 [1, 2])) = {1, 2}"
  using toggleOption_twice [of "[1, 2]" 1] by (simp add: toggleOption_def insert_commute)

text \<open>
  C9 as stated fails on the list the page keeps: with options 1 and 2 selected in
  that order, toggling option 1 twice leaves 2 before 1.
\<close>

theorem toggleOption_twice_counterexample:
  "distinct [1, 2 :: nat] \<and> toggleOption 1 (toggleOption 1 [1, 2]) \<noteq> [1, 2]"
  by (simp add: toggleOption_def)

lemma handleSkip_task:
  "task st = Some t \<Longrightarrow> alreadyCompleted st \<Longrightarrow> handleSkip env st = skip_move env t st"
  by (simp add: handleSkip_def)

lemma handleSkip_writes_otherwise:
  "task st = Some t \<Longrightarrow> \<not> alreadyCompleted st \<Longrightarrow> \<not> savingRef st \<Longrightarrow>
   hd (snd (handleSkip env st)) = PutAnnotate (image_id t) (save_body Skipped st)"
  by (auto simp: handleSkip_def saveAnnotation_def split: reply.splits prod.splits)

subsection \<open>Skip\<close>

lemma loadTask_skip_or_read: "list_all skip_or_read (snd (loadTask env i st))"
  by (simp add: loadTask_effects)

lemma resume_or_finish_skip_or_read: "list_all skip_or_read (snd (resume_or_finish env st))"
  by (auto simp: resume_or_finish_def split: reply.splits prod.splits dest: loadTask_effects_eq)

lemma skip_move_skip_or_read: "list_all skip_or_read (snd (skip_move env t st))"
  by (simp add: skip_move_def loadTask_skip_or_read resume_or_finish_skip_or_read)

lemma saveAnnotation_skip_or_read:
  "list_all skip_or_read (snd (snd (saveAnnotation env Skipped st)))"
  by (simp add: saveAnnotation_def save_body_def split: option.splits reply.splits)

lemma handleSkip_skip_or_read: "list_all skip_or_read (snd (handleSkip env st))"
proof (cases "task st")
  case None
  then show ?thesis by (simp add: handleSkip_def)
next
  case (Some t)
  show ?thesis
  proof (cases "alreadyCompleted st")
    case True
    then show ?thesis using Some by (simp add: handleSkip_def skip_move_skip_or_read)
  next
    case False
    obtain ok st1 eff1 where s: "saveAnnotation env Skipped st = (ok, st1, eff1)"
      by (cases "saveAnnotation env Skipped st") auto
    have e1: "list_all skip_or_read eff1" using saveAnnotation_skip_or_read [of env st] s by simp
    show ?thesis
    proof (cases ok)
      case True
      have "snd (handleSkip env st) = eff1 @ snd (skip_move env t st1)"
        using Some False s True by (simp add: handleSkip_def split: prod.splits)
      then show ?thesis using e1 skip_move_skip_or_read [of env t st1] by simp
    next
      case False
      have "snd (handleSkip env st) = eff1"
        using Some \<open>\<not> alreadyCompleted st\<close> s False by (simp add: handleSkip_def)
      then show ?thesis using e1 by simp
    qed
  qed
qed

lemma annotate_store_keeps:
  "db i = Some r \<Longrightarrow> body_status r = Completed \<Longrightarrow> body_status b = Skipped \<Longrightarrow>
   annotate_store j b db i = Some r"
  by (cases "j = i") (simp_all add: annotate_store_def annotate_handler_def)

lemma skipped_writes_keep_completed:
  "list_all skip_or_read es \<Longrightarrow> db i = Some r \<Longrightarrow> body_status r = Completed \<Longrightarrow>
   apply_effects annotate_store es db i = Some r"
proof (induction annotate_store es db rule: apply_effects.induct)
  case (1 db)
  then show ?case by simp
next
  case (2 j b es db)
  have "annotate_store j b db i = Some r"
    using 2 by (simp add: annotate_store_keeps)
  then show ?case using 2 by simp
qed simp_all


lemma annotate_handler_error:
  "(fst (annotate_handler i b db) = Inl StateError)
   = (body_status b = Skipped \<and> (\<exists>r. db i = Some r \<and> body_status r = Completed))"
  by (auto simp: annotate_handler_def split: option.splits)

lemma annotate_handler_rejected:
  "fst (annotate_handler i b db) = Inl StateError \<Longrightarrow> snd (annotate_handler i b db) = db"
  by (auto simp: annotate_handler_def split: if_splits)

text \<open>
  C2. A record that is completed is unchanged by Skip: whatever the page shows and
  whatever the server answers, after the requests of \<open>handleSkip\<close> the server holds
  for every completed record what it held before, so a read after Skip shows the same
  status and content. Two guards give this. The page sends no write at all when the
  task it has loaded shows the annotation as completed (it only moves on); when the
  loaded task shows none or one that is not completed, it sends the annotation with
  status skipped. The server refuses a write with status skipped to a completed
  record with \<open>StateError\<close> and leaves it as it is.
\<close>

theorem handleSkip_keeps_completed:
  "(db i = Some r \<and> body_status r = Completed \<longrightarrow>
      apply_effects annotate_store (snd (handleSkip env st)) db i = Some r)
   \<and> (fst (annotate_handler i b db) = Inl StateError)
       = (body_status b = Skipped \<and> (\<exists>r'. db i = Some r' \<and> body_status r' = Completed))
   \<and> (fst (annotate_handler i b db) = Inl StateError \<longrightarrow> snd (annotate_handler i b db) = db)
   \<and> (task st = Some t \<and> current_annotation t = Some a \<and> status a = Some Completed \<longrightarrow>
      filter is_write (snd (handleSkip env st)) = []
      \<and> apply_effects put (snd (handleSkip env st)) db' = db'
      \<and> handleSkip env st = skip_move env t st)
   \<and> (task st = Some t \<and> \<not> savingRef st
        \<and> (current_annotation t = None
            \<or> (\<exists>c. current_annotation t = Some c \<and> status c \<noteq> Some Completed)) \<longrightarrow>
      hd (snd (handleSkip env st)) = PutAnnotate (image_id t) (save_body Skipped st))"
proof -
  have 0: "db i = Some r \<and> body_status r = Completed \<longrightarrow>
      apply_effects annotate_store (snd (handleSkip env st)) db i = Some r"
    using skipped_writes_keep_completed [OF handleSkip_skip_or_read, of db i r env st] by blast
  have e1: "(fst (annotate_handler i b db) = Inl StateError)
       = (body_status b = Skipped \<and> (\<exists>r'. db i = Some r' \<and> body_status r' = Completed))"
    by (rule annotate_handler_error)
  have e2: "fst (annotate_handler i b db) = Inl StateError \<longrightarrow> snd (annotate_handler i b db) = db"
    using annotate_handler_rejected [of i b db] by blast
  have 1: "task st = Some t \<and> current_annotation t = Some a \<and> status a = Some Completed \<longrightarrow>
      filter is_write (snd (handleSkip env st)) = []
      \<and> apply_effects put (snd (handleSkip env st)) db' = db'
      \<and> handleSkip env st = skip_move env t st"
  proof (intro impI, elim conjE)
    assume t: "task st = Some t" and ca: "current_annotation t = Some a"
      and s: "status a = Some Completed"
    have c: "alreadyCompleted st" using t ca s by (simp add: alreadyCompleted_def)
    have w: "filter is_write (snd (handleSkip env st)) = []" using c by (rule handleSkip_completed)
    from w have "apply_effects put (snd (handleSkip env st)) db' = db'"
      by (rule apply_effects_no_write)
    with w handleSkip_task [OF t c]
    show "filter is_write (snd (handleSkip env st)) = []
      \<and> apply_effects put (snd (handleSkip env st)) db' = db'
      \<and> handleSkip env st = skip_move env t st" by simp
  qed
  have 2: "task st = Some t \<and> \<not> savingRef st
        \<and> (current_annotation t = None
            \<or> (\<exists>c. current_annotation t = Some c \<and> status c \<noteq> Some Completed)) \<longrightarrow>
      hd (snd (handleSkip env st)) = PutAnnotate (image_id t) (save_body Skipped st)"
  proof (intro impI, elim conjE)
    assume t: "task st = Some t" and r: "\<not> savingRef st"
      and n: "current_annotation t = None
            \<or> (\<exists>c. current_annotation t = Some c \<and> status c \<noteq> Some Completed)"
    have nc: "\<not> alreadyCompleted st" using t n by (auto simp: alreadyCompleted_def)
    show "hd (snd (handleSkip env st)) = PutAnnotate (image_id t) (save_body Skipped st)"
      using handleSkip_writes_otherwise [OF t nc r] .
  qed
  from 0 e1 e2 1 2 show ?thesis by (intro conjI)
qed

lemma ex_next_run:
  "handleNext ex_ap_env_range ex_fresh_state
   = (ex_fresh_state\<lparr>error := ''Image index out of range''\<rparr>,
      [PutAnnotate 7 (save_body Completed ex_fresh_state), GetQueueSize, GetResumeIndex, GetTask 10])"
  by (simp add: handleNext_def saveAnnotation_def resume_or_finish_def loadTask_def task_failure_def
      js_or_str_def ex_ap_env_range_def ex_range_reply_def ex_ap_env_def ex_put_reply_def
      ex_fresh_state_def ex_ap_state_def ex_task_def Let_def)

lemma ex_after_next_eq:
  "ex_after_next = ex_fresh_state\<lparr>error := ''Image index out of range''\<rparr>"
  by (simp add: ex_after_next_def ex_next_run)

lemma ex_store_after_next_eq:
  "ex_store_after_next = [7 \<mapsto> save_body Completed ex_fresh_state]"
  by (simp add: ex_store_after_next_def ex_next_run annotate_store_def annotate_handler_def
      save_body_def)

theorem handleSkip_keeps_completed_witness:
  "task ex_ap_state = Some ex_task \<and> current_annotation ex_task = Some ex_annotation
   \<and> status ex_annotation = Some Completed
   \<and> filter is_write (snd (handleSkip ex_ap_env ex_ap_state)) = []
   \<and> apply_effects log_put (snd (handleSkip ex_ap_env ex_ap_state)) [] = []
   \<and> ex_store_after_next 7 = Some (save_body Completed ex_fresh_state)
   \<and> body_status (save_body Completed ex_fresh_state) = Completed
   \<and> map_option current_annotation (task ex_after_next) = Some None
   \<and> \<not> savingRef ex_after_next
   \<and> hd (snd (handleSkip ex_ap_env_range ex_after_next))
       = PutAnnotate 7 (save_body Skipped ex_after_next)
   \<and> apply_effects annotate_store (snd (handleSkip ex_ap_env_range ex_after_next))
        ex_store_after_next 7 = Some (save_body Completed ex_fresh_state)"
proof -
  have h1: "task ex_ap_state = Some ex_task" by (simp add: ex_ap_state_def)
  have h2: "current_annotation ex_task = Some ex_annotation" by (simp add: ex_task_def)
  have h3: "status ex_annotation = Some Completed" by (simp add: ex_annotation_def)
  have g0: "ex_store_after_next 7 = Some (save_body Completed ex_fresh_state)"
    by (simp add: ex_store_after_next_eq)
  have g1: "body_status (save_body Completed ex_fresh_state) = Completed"
    by (simp add: save_body_def)
  have g2: "task ex_after_next = Some (ex_task\<lparr>current_annotation := None\<rparr>)"
    by (simp add: ex_after_next_eq ex_fresh_state_def)
  have g3: "\<not> savingRef ex_after_next"
    by (simp add: ex_after_next_eq ex_fresh_state_def ex_ap_state_def)
  have g4: "image_id (ex_task\<lparr>current_annotation := None\<rparr>) = 7" by (simp add: ex_task_def)
  have g5: "current_annotation (ex_task\<lparr>current_annotation := None\<rparr>) = None" by simp
  note a = handleSkip_keeps_completed [where st = ex_ap_state and t = ex_task and a = ex_annotation
      and env = ex_ap_env and put = log_put and db' = "[]" and db = ex_store_after_next
      and i = 7 and r = "save_body Completed ex_fresh_state"
      and b = "save_body Skipped ex_after_next"]
  note c = handleSkip_keeps_completed [where st = ex_after_next
      and t = "ex_task\<lparr>current_annotation := None\<rparr>" and a = ex_annotation
      and env = ex_ap_env_range and put = log_put and db' = "[]" and db = ex_store_after_next
      and i = 7 and r = "save_body Completed ex_fresh_state"
      and b = "save_body Skipped ex_after_next"]
  have r1: "filter is_write (snd (handleSkip ex_ap_env ex_ap_state)) = []
            \<and> apply_effects log_put (snd (handleSkip ex_ap_env ex_ap_state)) [] = []"
    using a h1 h2 h3 by blast
  have r2: "hd (snd (handleSkip ex_ap_env_range ex_after_next))
       = PutAnnotate 7 (save_body Skipped ex_after_next)"
    using c g2 g3 g4 g5 by simp
  have r3: "apply_effects annotate_store (snd (handleSkip ex_ap_env_range ex_after_next))
        ex_store_after_next 7 = Some (save_body Completed ex_fresh_state)"
    using c g0 g1 by blast
  have g2': "map_option current_annotation (task ex_after_next) = Some None"
    using g2 by simp
  from h1 h2 h3 r1 g0 g1 g2' g3 r2 r3 show ?thesis by (intro conjI) simp_all
qed

section \<open>Properties of the image-scoped page\<close>

subsection \<open>CategoryDropdown\<close>

lemma selectOption_disabled: "selectOption True sel optionId = (sel, None)"
  by (simp add: selectOption_def)

lemma selectOption_same: "selectOption False (Some optionId) optionId = (None, Some [])"
  by (simp add: selectOption_def)

lemma selectOption_new:
  "sel \<noteq> Some optionId \<Longrightarrow> selectOption False sel optionId =
     (Some optionId, Some (if optionId = 0 then [] else [optionId]))"
  by (simp add: selectOption_def)

lemma selectOption_length: "snd (selectOption disabled sel optionId) = Some ids \<Longrightarrow> length ids \<le> 1"
  by (cases disabled; cases "sel = Some optionId")
     (auto simp: selectOption_disabled selectOption_same selectOption_new split: if_splits)

lemma selectOption_enabled: "(snd (selectOption disabled sel optionId) = None) = disabled"
  by (cases disabled; cases "sel = Some optionId")
     (auto simp: selectOption_disabled selectOption_same selectOption_new)

lemma handleCategoryChange_entry: "pendingChanges (handleCategoryChange c v st) c = Some v"
  by (simp add: handleCategoryChange_def)

subsection \<open>loadImage\<close>

lemma maxSavedTime_eq: "maxSavedTime cats m = Max (set (m # stored_times cats))"
proof (induction cats arbitrary: m)
  case Nil
  then show ?case by simp
next
  case (Cons c cs)
  show ?case
  proof (cases "cat_annotation c")
    case None
    then show ?thesis using Cons.IH [of m] by simp
  next
    case (Some a)
    note ca = this
    show ?thesis
    proof (cases "time_spent_seconds a")
      case None
      then show ?thesis using ca Cons.IH [of m] by simp
    next
      case (Some t)
      have "Max (set ((if m < t then t else m) # stored_times cs)) = Max (set (m # t # stored_times cs))"
        by (cases "stored_times cs = []") (simp_all add: max_def)
      then show ?thesis using Some ca Cons.IH [of "if m < t then t else m"]
        by simp
    qed
  qed
qed

lemma loadImage_elapsed:
  "image_reply env i = Resolved d \<Longrightarrow> categories d = Some cats \<Longrightarrow>
   elapsedSeconds_img (fst (loadImage env i st)) = maxSavedTime cats 0"
  by (simp add: loadImage_def Let_def)

text \<open>
  C10. When the image loads (the request succeeds and the reply lists the
  categories), the timer is set to the largest of 0 and the \<open>time_spent_seconds\<close> of
  the image's category annotations. It is therefore never below a stored value, it is
  0 when there is none, and it is the maximum of the stored values as soon as one of
  them is not negative (stored times are non-negative by the data model).
\<close>

theorem loadImage_timer:
  assumes "image_reply env i = Resolved d" and "categories d = Some cats"
  shows "elapsedSeconds_img (fst (loadImage env i st)) = Max (set (0 # stored_times cats))
       \<and> (\<forall>t \<in> set (stored_times cats). t \<le> elapsedSeconds_img (fst (loadImage env i st)))
       \<and> (stored_times cats = [] \<longrightarrow> elapsedSeconds_img (fst (loadImage env i st)) = 0)
       \<and> ((\<exists>t \<in> set (stored_times cats). 0 \<le> t) \<longrightarrow>
            elapsedSeconds_img (fst (loadImage env i st)) = Max (set (stored_times cats)))"
proof -
  let ?e = "elapsedSeconds_img (fst (loadImage env i st))"
  have e: "?e = Max (set (0 # stored_times cats))"
    using assms by (simp add: loadImage_elapsed maxSavedTime_eq)
  have up: "\<forall>t \<in> set (stored_times cats). t \<le> ?e"
    unfolding e by (auto intro: Max_ge)
  have emp: "stored_times cats = [] \<longrightarrow> ?e = 0"
    unfolding e by simp
  have nn: "(\<exists>t \<in> set (stored_times cats). 0 \<le> t) \<longrightarrow> ?e = Max (set (stored_times cats))"
  proof
    assume "\<exists>t \<in> set (stored_times cats). 0 \<le> t"
    then obtain t where t: "t \<in> set (stored_times cats)" "0 \<le> t" by blast
    then have "0 \<le> Max (set (stored_times cats))"
      by (meson List.finite_set Max_ge order_trans)
    moreover have "set (stored_times cats) \<noteq> {}" using t by auto
    ultimately show "?e = Max (set (stored_times cats))"
      unfolding e by (simp add: max_def)
  qed
  from e up emp nn show ?thesis by blast
qed

theorem loadImage_timer_witness:
  "image_reply ex_ip_env 7 = Resolved ex_image \<and> categories ex_image = Some ex_categories
   \<and> stored_times ex_categories = [12, 30]
   \<and> elapsedSeconds_img (fst (loadImage ex_ip_env 7 ex_ip_state)) = 30"
proof -
  have h1: "image_reply ex_ip_env 7 = Resolved ex_image"
    by (simp add: ex_ip_env_def ex_image_reply_def)
  have h2: "categories ex_image = Some ex_categories" by (simp add: ex_image_def)
  have h3: "stored_times ex_categories = [12, 30]"
    by (simp add: ex_categories_def ex_annotation_def)
  from loadImage_timer [OF h1 h2, of ex_ip_state] h1 h2 h3 show ?thesis by simp
qed

subsection \<open>Saving and the timer\<close>









lemma forget_time_error:
  "forget_time (st\<lparr>error_img := m\<rparr>) = (forget_time st)\<lparr>error_img := m\<rparr>"
  by (simp add: forget_time_def)

lemma handleSave_blocked: "\<not> save_allowed st \<Longrightarrow> handleSave env i st = (False, st, [])"
  by (simp add: handleSave_def)

lemma handleSave_invalid:
  "save_allowed st \<Longrightarrow> validateAllCategoriesSelected st = (False, missing) \<Longrightarrow>
   handleSave env i st =
     (False, st\<lparr>error_img := ''Please select an option for: '' @ join '', '' missing\<rparr>, [])"
  by (simp add: handleSave_def)

lemma handleSave_rejected:
  "save_allowed st \<Longrightarrow> validateAllCategoriesSelected st = (True, missing) \<Longrightarrow>
   save_reply env i (pendingChanges st) (elapsedSeconds_img st) = Rejected code d \<Longrightarrow>
   handleSave env i st =
     (False, st\<lparr>error_img := js_or_str d ''Failed to save'', saving_img := False\<rparr>,
      [PutAnnotations i (pendingChanges st) (elapsedSeconds_img st)])"
  by (simp add: handleSave_def)

lemma handleSave_resolved:
  "save_allowed st \<Longrightarrow> validateAllCategoriesSelected st = (True, missing) \<Longrightarrow>
   save_reply env i (pendingChanges st) (elapsedSeconds_img st) = Resolved u \<Longrightarrow>
   handleSave env i st =
     (True, (fst (loadImage env i (st\<lparr>saving_img := True, error_img := []\<rparr>)))\<lparr>saving_img := False\<rparr>,
      PutAnnotations i (pendingChanges st) (elapsedSeconds_img st)
        # snd (loadImage env i (st\<lparr>saving_img := True, error_img := []\<rparr>)))"
  by (simp add: handleSave_def split: prod.splits)










lemma ex_handleSave_sends: "fst (handleSave ex_ip_env 7 ex_ip_state) = True"
  by (simp add: handleSave_def save_allowed_def validateAllCategoriesSelected_def ex_ip_state_def
      ex_image_def ex_categories_def passed_over_def lacks_selection_def ex_ip_env_def
      ex_save_reply_def split: prod.splits)


subsection \<open>Validation\<close>

lemma missing_loop_eq:
  "missing_loop pc cats acc = acc @ map cat_name (unselected pc cats)"
  by (induction cats arbitrary: acc) (simp_all add: unselected_def)

lemma validate_eq:
  "data st = Some d \<Longrightarrow> categories d = Some cats \<Longrightarrow>
   validateAllCategoriesSelected st
     = (unselected (pendingChanges st) cats = [], map cat_name (unselected (pendingChanges st) cats))"
  by (simp add: validateAllCategoriesSelected_def missing_loop_eq)

lemma handleSave_valid_sends:
  "save_allowed st \<Longrightarrow> validateAllCategoriesSelected st = (True, missing) \<Longrightarrow>
   snd (snd (handleSave env i st)) \<noteq> []
   \<and> hd (snd (snd (handleSave env i st))) = PutAnnotations i (pendingChanges st) (elapsedSeconds_img st)"
  by (cases "save_reply env i (pendingChanges st) (elapsedSeconds_img st)")
     (simp_all add: handleSave_resolved handleSave_rejected)

text \<open>
  C4 (as amended). A save that the page does not allow (a save in flight, no edit
  right, an improper image) sends nothing. Otherwise validation asks for at least one
  selected option in every category except a category completed by another annotator
  for which nothing is pending: if one of the others lacks a selection, \<open>handleSave\<close>
  returns \<^verbatim>\<open>false\<close>, sends nothing and sets the error to the names of exactly those
  categories, in order; if none does, the PUT is sent. On the category page Save and
  Next does nothing while no option is selected.
\<close>

theorem handleSave_validation:
  "(\<not> save_allowed st \<longrightarrow> handleSave env i st = (False, st, []))
   \<and> (save_allowed st \<and> data st = Some d \<and> categories d = Some cats \<longrightarrow>
        snd (validateAllCategoriesSelected st) = map cat_name (unselected (pendingChanges st) cats)
        \<and> (unselected (pendingChanges st) cats \<noteq> [] \<longrightarrow>
             handleSave env i st =
               (False,
                st\<lparr>error_img := ''Please select an option for: ''
                       @ join '', '' (map cat_name (unselected (pendingChanges st) cats))\<rparr>,
                []))
        \<and> (unselected (pendingChanges st) cats = [] \<longrightarrow>
             snd (snd (handleSave env i st)) \<noteq> []
             \<and> hd (snd (snd (handleSave env i st)))
                 = PutAnnotations i (pendingChanges st) (elapsedSeconds_img st)))
   \<and> (selectedOptions ast = [] \<longrightarrow>
        clickSaveNext aenv ast = (ast, []) \<and> keySaveNext aenv ast = (ast, []))"
proof -
  have blocked: "\<not> save_allowed st \<longrightarrow> handleSave env i st = (False, st, [])"
    by (simp add: handleSave_blocked)
  have page: "selectedOptions ast = [] \<longrightarrow>
        clickSaveNext aenv ast = (ast, []) \<and> keySaveNext aenv ast = (ast, [])"
    by (simp add: clickSaveNext_def keySaveNext_def)
  have main: "save_allowed st \<and> data st = Some d \<and> categories d = Some cats \<longrightarrow>
        snd (validateAllCategoriesSelected st) = map cat_name (unselected (pendingChanges st) cats)
        \<and> (unselected (pendingChanges st) cats \<noteq> [] \<longrightarrow>
             handleSave env i st =
               (False,
                st\<lparr>error_img := ''Please select an option for: ''
                       @ join '', '' (map cat_name (unselected (pendingChanges st) cats))\<rparr>,
                []))
        \<and> (unselected (pendingChanges st) cats = [] \<longrightarrow>
             snd (snd (handleSave env i st)) \<noteq> []
             \<and> hd (snd (snd (handleSave env i st)))
                 = PutAnnotations i (pendingChanges st) (elapsedSeconds_img st))"
  proof (intro impI, elim conjE)
    assume ok: "save_allowed st" and d: "data st = Some d" and c: "categories d = Some cats"
    note v = validate_eq [OF d c]
    have 1: "snd (validateAllCategoriesSelected st) = map cat_name (unselected (pendingChanges st) cats)"
      by (simp add: v)
    have 2: "unselected (pendingChanges st) cats \<noteq> [] \<longrightarrow>
             handleSave env i st =
               (False,
                st\<lparr>error_img := ''Please select an option for: ''
                       @ join '', '' (map cat_name (unselected (pendingChanges st) cats))\<rparr>,
                [])"
      using handleSave_invalid [OF ok, of "map cat_name (unselected (pendingChanges st) cats)" env i] v
      by simp
    have 3: "unselected (pendingChanges st) cats = [] \<longrightarrow>
             snd (snd (handleSave env i st)) \<noteq> []
             \<and> hd (snd (snd (handleSave env i st)))
                 = PutAnnotations i (pendingChanges st) (elapsedSeconds_img st)"
      using handleSave_valid_sends [OF ok, of "[]" env i] v by simp
    from 1 2 3 show "snd (validateAllCategoriesSelected st) = map cat_name (unselected (pendingChanges st) cats)
        \<and> (unselected (pendingChanges st) cats \<noteq> [] \<longrightarrow>
             handleSave env i st =
               (False,
                st\<lparr>error_img := ''Please select an option for: ''
                       @ join '', '' (map cat_name (unselected (pendingChanges st) cats))\<rparr>,
                []))
        \<and> (unselected (pendingChanges st) cats = [] \<longrightarrow>
             snd (snd (handleSave env i st)) \<noteq> []
             \<and> hd (snd (snd (handleSave env i st)))
                 = PutAnnotations i (pendingChanges st) (elapsedSeconds_img st))"
      by blast
  qed
  from blocked main page show ?thesis by blast
qed

lemma ex_ip_missing_facts:
  "save_allowed ex_ip_missing" "data ex_ip_missing = Some ex_image"
  "categories ex_image = Some ex_categories"
  by (simp_all add: ex_ip_missing_def ex_ip_state_def save_allowed_def ex_image_def)

lemma ex_unselected:
  "map cat_name (unselected (pendingChanges ex_ip_missing) ex_categories) = [''Pose'']"
  by (simp add: unselected_def ex_ip_missing_def ex_categories_def passed_over_def
      lacks_selection_def)

theorem handleSave_validation_witness:
  "save_allowed ex_ip_missing \<and> data ex_ip_missing = Some ex_image
   \<and> categories ex_image = Some ex_categories
   \<and> handleSave ex_ip_env 7 ex_ip_missing
       = (False, ex_ip_missing\<lparr>error_img := ''Please select an option for: Pose''\<rparr>, [])"
proof -
  have ne: "unselected (pendingChanges ex_ip_missing) ex_categories \<noteq> []"
    using ex_unselected by auto
  from handleSave_validation [where st = ex_ip_missing and env = ex_ip_env and i = 7
      and d = ex_image and cats = ex_categories and ast = ex_ap_state and aenv = ex_ap_env]
    ex_ip_missing_facts ne
  have "handleSave ex_ip_env 7 ex_ip_missing =
          (False,
           ex_ip_missing\<lparr>error_img := ''Please select an option for: ''
              @ join '', '' (map cat_name (unselected (pendingChanges ex_ip_missing) ex_categories))\<rparr>,
           [])"
    by blast
  then show ?thesis using ex_ip_missing_facts by (simp add: ex_unselected)
qed

lemma ex_validate: "validateAllCategoriesSelected ex_ip_state = (True, [])"
  by (simp add: validateAllCategoriesSelected_def ex_ip_state_def ex_image_def ex_categories_def
      passed_over_def lacks_selection_def)

text \<open>
  C4 as stated fails for a category completed by another annotator: the sample image
  has such a category without any selected option, yet validation passes and the PUT
  is sent.
\<close>

theorem handleSave_validation_counterexample:
  "data ex_ip_state = Some ex_image \<and> categories ex_image = Some ex_categories
   \<and> list_ex (lacks_selection (pendingChanges ex_ip_state)) ex_categories
   \<and> fst (validateAllCategoriesSelected ex_ip_state)
   \<and> fst (handleSave ex_ip_env 7 ex_ip_state)
   \<and> hd (snd (snd (handleSave ex_ip_env 7 ex_ip_state)))
       = PutAnnotations 7 (pendingChanges ex_ip_state) 45"
proof -
  have a: "save_allowed ex_ip_state"
    by (simp add: save_allowed_def ex_ip_state_def ex_image_def)
  have l: "list_ex (lacks_selection (pendingChanges ex_ip_state)) ex_categories"
    by (simp add: ex_categories_def lacks_selection_def ex_ip_state_def)
  have e: "elapsedSeconds_img ex_ip_state = 45" by (simp add: ex_ip_state_def)
  from handleSave_valid_sends [OF a ex_validate, of ex_ip_env 7] ex_handleSave_sends l e ex_validate
  show ?thesis by (simp add: ex_ip_state_def ex_image_def)
qed

subsection \<open>Selections sent by a save\<close>

lemma initial_changes_other:
  "k \<notin> cat_id ` set cats \<Longrightarrow> initial_changes cats m k = m k"
  by (induction cats arbitrary: m) (auto split: option.splits)

lemma initial_changes_seed:
  "distinct (map cat_id cats) \<Longrightarrow> c \<in> set cats \<Longrightarrow> cat_annotation c = Some a \<Longrightarrow>
   initial_changes cats m (cat_id c) = Some (selected_option_ids a)"
proof (induction cats arbitrary: m)
  case Nil
  then show ?case by simp
next
  case (Cons x cats)
  show ?case
  proof (cases "c = x")
    case True
    have "cat_id x \<notin> cat_id ` set cats" using Cons.prems(1) by simp
    then show ?thesis using True Cons.prems(3) by (simp add: initial_changes_other)
  next
    case False
    then have "c \<in> set cats" using Cons.prems(2) by simp
    moreover have "distinct (map cat_id cats)" using Cons.prems(1) by simp
    ultimately show ?thesis using Cons.IH Cons.prems(3) by simp
  qed
qed

lemma loadImage_pending:
  "image_reply env i = Resolved d \<Longrightarrow> categories d = Some cats \<Longrightarrow>
   pendingChanges (fst (loadImage env i st)) = initial_changes cats Map.empty"
  by (simp add: loadImage_def Let_def)

lemma handleCategoryChange_frame:
  "pendingChanges (handleCategoryChange c v st) k = (if k = c then Some v else pendingChanges st k)"
  by (simp add: handleCategoryChange_def)

lemma handleSave_sends_pending:
  "snd (snd (handleSave env i st)) \<noteq> [] \<Longrightarrow>
   hd (snd (snd (handleSave env i st))) = PutAnnotations i (pendingChanges st) (elapsedSeconds_img st)"
proof (cases "save_allowed st")
  case False
  assume "snd (snd (handleSave env i st)) \<noteq> []"
  then show ?thesis using False by (simp add: handleSave_blocked)
next
  case True
  assume ne: "snd (snd (handleSave env i st)) \<noteq> []"
  obtain valid missing where vm: "validateAllCategoriesSelected st = (valid, missing)"
    by (cases "validateAllCategoriesSelected st") simp
  show ?thesis
  proof (cases valid)
    case False
    then show ?thesis using ne True vm by (simp add: handleSave_invalid)
  next
    case v: True
    then show ?thesis using handleSave_valid_sends [OF True, of missing env i] vm by simp
  qed
qed

text \<open>
  C8 (as amended). A click in a \<open>CategoryDropdown\<close> hands something to \<open>onChange\<close>
  exactly when the dropdown is not disabled, and what it hands over has length 0 or
  1: clicking the selected option clears the selection to the empty list, clicking
  another option replaces it by that option alone (option ids are database keys,
  hence positive: the page builds the list with \<^verbatim>\<open>newSelected ? [newSelected] : []\<close>,
  which treats 0 as no selection). \<open>handleCategoryChange\<close> stores it as the entry of
  that category and leaves the other entries. \<open>loadImage\<close> seeds the entry of every
  annotated category with the \<open>selected_option_ids\<close> the server stored, and
  \<open>handleSave\<close> sends the entries as they are. What is sent for a category thus has
  length 0 or 1 once the annotator has clicked in it, and is the stored list
  otherwise.
\<close>

theorem selectOption_single:
  "(snd (selectOption disabled sel optionId) = None) = disabled
   \<and> (\<forall>ids. snd (selectOption disabled sel optionId) = Some ids \<longrightarrow>
         length ids \<le> 1 \<and> pendingChanges (handleCategoryChange c (Some ids) st) c = Some (Some ids))
   \<and> (\<not> disabled \<and> sel = Some optionId \<longrightarrow> selectOption disabled sel optionId = (None, Some []))
   \<and> (\<not> disabled \<and> sel \<noteq> Some optionId \<and> 0 < optionId \<longrightarrow>
        selectOption disabled sel optionId = (Some optionId, Some [optionId]))
   \<and> (\<forall>k v. pendingChanges (handleCategoryChange c v st) k
               = (if k = c then Some v else pendingChanges st k))
   \<and> (image_reply env i = Resolved d \<and> categories d = Some cats \<and> distinct (map cat_id cats) \<longrightarrow>
        (\<forall>x \<in> set cats. \<forall>a. cat_annotation x = Some a \<longrightarrow>
           pendingChanges (fst (loadImage env i st)) (cat_id x) = Some (selected_option_ids a)))
   \<and> (snd (snd (handleSave env i st)) \<noteq> [] \<longrightarrow>
        hd (snd (snd (handleSave env i st)))
          = PutAnnotations i (pendingChanges st) (elapsedSeconds_img st))"
proof -
  have 1: "(snd (selectOption disabled sel optionId) = None) = disabled"
    by (rule selectOption_enabled)
  have 2: "\<forall>ids. snd (selectOption disabled sel optionId) = Some ids \<longrightarrow>
         length ids \<le> 1 \<and> pendingChanges (handleCategoryChange c (Some ids) st) c = Some (Some ids)"
    using selectOption_length [of disabled sel optionId] by (simp add: handleCategoryChange_entry)
  have 3: "\<not> disabled \<and> sel = Some optionId \<longrightarrow> selectOption disabled sel optionId = (None, Some [])"
    by (simp add: selectOption_same)
  have 4: "\<not> disabled \<and> sel \<noteq> Some optionId \<and> 0 < optionId \<longrightarrow>
        selectOption disabled sel optionId = (Some optionId, Some [optionId])"
    by (simp add: selectOption_new)
  have 5: "\<forall>k v. pendingChanges (handleCategoryChange c v st) k
               = (if k = c then Some v else pendingChanges st k)"
    by (simp add: handleCategoryChange_frame)
  have 6: "image_reply env i = Resolved d \<and> categories d = Some cats \<and> distinct (map cat_id cats) \<longrightarrow>
        (\<forall>x \<in> set cats. \<forall>a. cat_annotation x = Some a \<longrightarrow>
           pendingChanges (fst (loadImage env i st)) (cat_id x) = Some (selected_option_ids a))"
    using loadImage_pending [of env i d cats st] initial_changes_seed [of cats] by simp
  have 7: "snd (snd (handleSave env i st)) \<noteq> [] \<longrightarrow>
        hd (snd (snd (handleSave env i st)))
          = PutAnnotations i (pendingChanges st) (elapsedSeconds_img st)"
    using handleSave_sends_pending [of env i st] by blast
  from 1 2 3 4 5 6 7 show ?thesis by (intro conjI)
qed

lemma ex_multi_facts:
  "pendingChanges ex_multi_state 1 = Some (Some [3, 5])"
  "elapsedSeconds_img ex_multi_state = 12"
  "save_allowed ex_multi_state"
  "validateAllCategoriesSelected ex_multi_state = (True, [])"
  by (simp_all add: ex_multi_state_def loadImage_def ex_multi_env_def ex_multi_reply_def
      ex_multi_image_def ex_multi_categories_def ex_ip_env_def ex_ai_reply_def ex_annotation_def ex_ip_state_def
      save_allowed_def validateAllCategoriesSelected_def passed_over_def lacks_selection_def
      hasRework_def Let_def)

text \<open>
  C8 as stated fails for an entry the annotator does not touch: an annotation stored
  with the options 3 and 5 is loaded and sent back with both.
\<close>

theorem selectOption_single_counterexample:
  "pendingChanges ex_multi_state 1 = Some (Some [3, 5])
   \<and> hd (snd (snd (handleSave ex_multi_env 7 ex_multi_state)))
       = PutAnnotations 7 (pendingChanges ex_multi_state) 12
   \<and> snd (snd (handleSave ex_multi_env 7 ex_multi_state)) \<noteq> []
   \<and> length [3, 5 :: nat] = 2"
  using handleSave_valid_sends [OF ex_multi_facts(3) ex_multi_facts(4), of ex_multi_env 7]
    ex_multi_facts(1, 2)
  by simp

theorem selectOption_single_witness:
  "selectOption False (Some 3) 5 = (Some 5, Some [5]) \<and> selectOption False (Some 5) 5 = (None, Some [])
   \<and> pendingChanges (handleCategoryChange 1 (Some [5]) ex_multi_state) 1 = Some (Some [5])
   \<and> image_reply ex_multi_env 7 = Resolved ex_multi_image
   \<and> pendingChanges (fst (loadImage ex_multi_env 7 ex_ip_state)) 1 = Some (Some [3, 5])"
proof -
  note a = selectOption_single [where disabled = False and sel = "Some 3" and optionId = 5
      and c = 1 and st = ex_multi_state and env = ex_multi_env and i = 7 and d = ex_multi_image
      and cats = ex_multi_categories]
  note b = selectOption_single [where disabled = False and sel = "Some 5" and optionId = 5
      and c = 1 and st = ex_ip_state and env = ex_multi_env and i = 7 and d = ex_multi_image
      and cats = ex_multi_categories]
  have r: "image_reply ex_multi_env 7 = Resolved ex_multi_image"
    by (simp add: ex_multi_env_def ex_multi_reply_def)
  have s1: "selectOption False (Some 3) 5 = (Some 5, Some [5])" using a by simp
  have s2: "selectOption False (Some 5) 5 = (None, Some [])" using b by simp
  have s3: "pendingChanges (handleCategoryChange 1 (Some [5]) ex_multi_state) 1 = Some (Some [5])"
    using a by simp
  have s4: "pendingChanges (fst (loadImage ex_multi_env 7 ex_ip_state)) 1 = Some (Some [3, 5])"
    using b r by (simp add: ex_multi_image_def ex_multi_categories_def ex_annotation_def)
  from s1 s2 s3 s4 r show ?thesis by (intro conjI)
qed

section \<open>Properties of the admin review tab\<close>

subsection \<open>Bulk approve\<close>

lemma approve_ids_append: "approve_ids (xs @ ys) = approve_ids xs @ approve_ids ys"
  by (induction xs rule: approve_ids.induct) simp_all

lemma alerts_append: "alerts (xs @ ys) = alerts xs @ alerts ys"
  by (induction xs rule: alerts.induct) simp_all

lemma approve_ids_puts: "approve_ids (map PutApprove ids) = ids"
  by (induction ids) simp_all

lemma alerts_puts: "alerts (map PutApprove ids) = []"
  by (induction ids) simp_all

lemma bulk_ids: "approve_ids (fst (handleBulkApprove reply (Some td) sel)) = bulk_requests td sel"
  by (simp add: handleBulkApprove_def Let_def approve_ids_append approve_ids_puts)

lemma bulk_alerts:
  "alerts (fst (handleBulkApprove reply (Some td) sel))
   = (if list_all (\<lambda>i. is_resolved (reply i)) (bulk_requests td sel) then []
      else [''Some approvals failed''])"
  by (simp add: handleBulkApprove_def Let_def alerts_append alerts_puts)

lemma bulk_effects:
  "fst (handleBulkApprove reply (Some td) sel)
   = map PutApprove (bulk_requests td sel)
     @ (if list_all (\<lambda>i. is_resolved (reply i)) (bulk_requests td sel) then [RefreshData]
        else [Alert ''Some approvals failed''])"
  by (simp add: handleBulkApprove_def Let_def)

lemma bulk_selection:
  "snd (handleBulkApprove reply (Some td) sel)
   = (if list_all (\<lambda>i. is_resolved (reply i)) (bulk_requests td sel) then [] else sel)"
  by (simp add: handleBulkApprove_def Let_def)

text \<open>
  C3 (as amended). \<open>handleBulkApprove\<close> sends one approve request per pending cell
  of the selected rows, and which requests it sends does not depend on how the server
  answers: a failure on one id does not keep the others from being attempted, and
  nothing is rolled back. The outcome is reported as a whole: when every request
  succeeded the selection is cleared and the table refreshed; when at least one
  failed, a single alert \<^verbatim>\<open>Some approvals failed\<close> is shown and the selection is kept.
\<close>

theorem handleBulkApprove_partial:
  "approve_ids (fst (handleBulkApprove reply (Some td) sel)) = bulk_requests td sel
   \<and> approve_ids (fst (handleBulkApprove reply (Some td) sel))
       = approve_ids (fst (handleBulkApprove reply' (Some td) sel))
   \<and> alerts (fst (handleBulkApprove reply (Some td) sel))
       = (if list_all (\<lambda>i. is_resolved (reply i)) (bulk_requests td sel) then []
          else [''Some approvals failed''])
   \<and> snd (handleBulkApprove reply (Some td) sel)
       = (if list_all (\<lambda>i. is_resolved (reply i)) (bulk_requests td sel) then [] else sel)
   \<and> handleBulkApprove reply None sel = ([], sel)
   \<and> fst (handleBulkApprove reply (Some td) sel)
       = map PutApprove (bulk_requests td sel)
         @ (if list_all (\<lambda>i. is_resolved (reply i)) (bulk_requests td sel) then [RefreshData]
            else [Alert ''Some approvals failed''])"
proof -
  have none: "handleBulkApprove reply None sel = ([], sel)"
    by (simp add: handleBulkApprove_def)
  have same: "approve_ids (fst (handleBulkApprove reply (Some td) sel))
       = approve_ids (fst (handleBulkApprove reply' (Some td) sel))"
    by (simp only: bulk_ids)
  from bulk_ids [of reply td sel] same bulk_alerts [of reply td sel]
    bulk_selection [of reply td sel] none bulk_effects [of reply td sel]
  show ?thesis by (intro conjI)
qed

lemma ex_bulk_requests: "bulk_requests ex_table [7] = [11, 12]"
  by (simp add: ex_table_def ex_row_def ex_cell_def)

theorem handleBulkApprove_partial_witness:
  "approve_ids (fst (handleBulkApprove fail_first (Some ex_table) [7])) = [11, 12]
   \<and> alerts (fst (handleBulkApprove fail_first (Some ex_table) [7])) = [''Some approvals failed'']
   \<and> snd (handleBulkApprove fail_first (Some ex_table) [7]) = [7]
   \<and> handleBulkApprove all_succeed (Some ex_table) [7]
       = ([PutApprove 11, PutApprove 12, RefreshData], [])"
  using handleBulkApprove_partial [where reply = fail_first and reply' = fail_second
      and td = ex_table and sel = "[7]"]
    handleBulkApprove_partial [where reply = all_succeed and reply' = fail_second
      and td = ex_table and sel = "[7]"]
  by (simp add: ex_table_def ex_row_def ex_cell_def fail_first_def all_succeed_def prod_eq_iff)

text \<open>
  C3 as stated fails on the report: whether the approval of 11 or that of 12 is
  rejected, the admin is shown the same single alert, with no result per id.
\<close>

theorem handleBulkApprove_partial_counterexample:
  "\<not> is_resolved (fail_first 11) \<and> is_resolved (fail_first 12)
   \<and> is_resolved (fail_second 11) \<and> \<not> is_resolved (fail_second 12)
   \<and> fst (handleBulkApprove fail_first (Some ex_table) [7])
       = [PutApprove 11, PutApprove 12, Alert ''Some approvals failed'']
   \<and> fst (handleBulkApprove fail_second (Some ex_table) [7])
       = [PutApprove 11, PutApprove 12, Alert ''Some approvals failed'']"
  by (simp add: handleBulkApprove_def ex_table_def ex_row_def ex_cell_def fail_first_def
      fail_second_def)

subsection \<open>Approval\<close>

lemma approve_row_ok:
  "approve_row a = Inr a' \<Longrightarrow>
   (row_review_status a = None \<or> row_review_status a = Some ReworkCompleted)
   \<and> a' = a\<lparr>row_review_status := Some Approved\<rparr>"
  by (auto simp: approve_row_def split: if_splits)

lemma approve_row_approved: "row_review_status a = Some Approved \<Longrightarrow> approve_row a = Inl StateError"
  by (simp add: approve_row_def)

lemma Approve_approved:
  "db i = Some a \<Longrightarrow> row_review_status a = Some Approved \<Longrightarrow> Approve db i = Inl StateError"
  by (simp add: Approve_def approve_row_approved)

lemma Approve_other:
  "db i = Some a \<Longrightarrow> row_review_status a = Some Approved \<Longrightarrow> Approve db j = Inr db1 \<Longrightarrow>
   db1 i = Some a"
  by (cases "j = i") (auto simp: Approve_def approve_row_approved split: option.splits sum.splits)

lemma Approve_result:
  "Approve db j = Inr db1 \<Longrightarrow> \<exists>a. db1 j = Some a \<and> row_review_status a = Some Approved"
  by (auto simp: Approve_def dest: approve_row_ok split: option.splits sum.splits)

lemma approve_run_Inl:
  "Approve db j = Inl e \<Longrightarrow>
   approve_run db (j # ids) = ((j, Some e) # fst (approve_run db ids), snd (approve_run db ids))"
  by (simp add: split_def Let_def)

lemma approve_run_Inr:
  "Approve db j = Inr db1 \<Longrightarrow>
   approve_run db (j # ids) = ((j, None) # fst (approve_run db1 ids), snd (approve_run db1 ids))"
  by (simp add: split_def Let_def)

lemma approve_run_approved:
  "db i = Some a \<Longrightarrow> row_review_status a = Some Approved \<Longrightarrow>
   list_all (\<lambda>p. fst p = i \<longrightarrow> snd p = Some StateError) (fst (approve_run db ids))
   \<and> snd (approve_run db ids) i = Some a"
proof (induction ids arbitrary: db)
  case Nil
  then show ?case by simp
next
  case (Cons j ids)
  show ?case
  proof (cases "Approve db j")
    case (Inl e)
    have "j = i \<longrightarrow> e = StateError" using Cons.prems Inl Approve_approved by fastforce
    then show ?thesis using Cons.IH [of db, OF Cons.prems] by (simp add: approve_run_Inl [OF Inl] del: approve_run.simps)
  next
    case (Inr db1)
    have 1: "db1 i = Some a" using Approve_other [OF Cons.prems Inr] .
    have "j \<noteq> i" using Cons.prems Inr Approve_approved by fastforce
    then show ?thesis using Cons.IH [of db1, OF 1 Cons.prems(2)]
      by (simp add: approve_run_Inr [OF Inr] del: approve_run.simps)
  qed
qed

lemma successes_not_approved:
  "db i = Some a \<Longrightarrow> row_review_status a = Some Approved \<Longrightarrow>
   i \<notin> set (successes (fst (approve_run db ids)))"
proof (induction ids arbitrary: db)
  case Nil
  then show ?case by simp
next
  case (Cons j ids)
  show ?case
  proof (cases "Approve db j")
    case (Inl e)
    then show ?thesis using Cons.IH [of db, OF Cons.prems] by (simp add: approve_run_Inl [OF Inl] del: approve_run.simps)
  next
    case (Inr db1)
    have 1: "db1 i = Some a" using Approve_other [OF Cons.prems Inr] .
    have "j \<noteq> i" using Cons.prems Inr Approve_approved by fastforce
    then show ?thesis using Cons.IH [of db1, OF 1 Cons.prems(2)]
      by (simp add: approve_run_Inr [OF Inr] del: approve_run.simps)
  qed
qed

lemma successes_distinct: "distinct (successes (fst (approve_run db ids)))"
proof (induction ids arbitrary: db)
  case Nil
  then show ?case by simp
next
  case (Cons j ids)
  show ?case
  proof (cases "Approve db j")
    case (Inl e)
    then show ?thesis using Cons.IH [of db] by (simp add: approve_run_Inl [OF Inl] del: approve_run.simps)
  next
    case (Inr db1)
    from Approve_result [OF Inr] obtain a where a: "db1 j = Some a" "row_review_status a = Some Approved"
      by blast
    have "j \<notin> set (successes (fst (approve_run db1 ids)))"
      using successes_not_approved [of db1 j a ids, OF a] .
    then show ?thesis using Cons.IH [of db1] by (simp add: approve_run_Inr [OF Inr] del: approve_run.simps)
  qed
qed

lemma pendingAnnotations_not_approved:
  "list_all (\<lambda>c. cell_review_status c \<noteq> Some Approved) (pendingAnnotations cats row)"
  by (induction cats) (simp_all split: option.splits)

lemma approve_ids_handleApprove: "approve_ids (handleApprove reply i) = [i]"
  by (simp add: handleApprove_def split: reply.splits)

lemma approve_each_ids:
  "set (approve_ids (approve_each reply row edits cs)) \<subseteq> annotation_id ` set cs"
  by (induction cs) (auto simp: approve_ids_append approve_ids_handleApprove)

lemma row_requests_pending:
  "i \<in> set (row_requests row cats) \<Longrightarrow>
   \<exists>cat \<in> set cats. \<exists>c. annotations row cat = Some c \<and> annotation_id c = i \<and> cell_review_status c = None"
  by (induction cats) (auto split: option.splits if_splits)

lemma bulk_requests_pending:
  "i \<in> set (bulk_requests td sel) \<Longrightarrow>
   \<exists>row \<in> set (images td). i \<in> set (row_requests row (table_categories td))"
proof (induction sel)
  case Nil
  then show ?case by simp
next
  case (Cons x sel)
  show ?case
  proof (cases "find (\<lambda>r. row_image_id r = x) (images td)")
    case None
    then show ?thesis using Cons by simp
  next
    case (Some row)
    then have "row \<in> set (images td)" by (auto simp: find_Some_iff)
    then show ?thesis using Cons Some by auto
  qed
qed


text \<open>
  C1. \<open>Approve\<close> succeeds only on an annotation whose \<open>review_status\<close> is null or
  \<open>rework_completed\<close>, and then sets it to \<open>approved\<close>; on an approved annotation it
  raises \<open>StateError\<close>. Hence in every sequence of approve operations, from every
  store: an annotation that is approved stays as it is and every operation on it
  ends in \<open>StateError\<close>, and no id is approved twice. On the client, Approve All
  (\<open>pendingAnnotations\<close>, \<open>handleApproveAll\<close>) never asks for a cell it shows as
  approved, and bulk approve asks only for cells whose \<open>review_status\<close> is null.
\<close>

theorem approve_never_reapproves:
  "(\<forall>a'. approve_row a = Inr a' \<longrightarrow>
        (row_review_status a = None \<or> row_review_status a = Some ReworkCompleted)
        \<and> a' = a\<lparr>row_review_status := Some Approved\<rparr>)
   \<and> (row_review_status a = Some Approved \<longrightarrow> approve_row a = Inl StateError)
   \<and> (db i = Some a \<and> row_review_status a = Some Approved \<longrightarrow>
        Approve db i = Inl StateError
        \<and> list_all (\<lambda>p. fst p = i \<longrightarrow> snd p = Some StateError) (fst (approve_run db ids))
        \<and> i \<notin> set (successes (fst (approve_run db ids)))
        \<and> snd (approve_run db ids) i = Some a)
   \<and> distinct (successes (fst (approve_run db ids)))
   \<and> list_all (\<lambda>c. cell_review_status c \<noteq> Some Approved) (pendingAnnotations cats row)
   \<and> set (approve_ids (handleApproveAll reply cats row edits))
        \<subseteq> annotation_id ` set (pendingAnnotations cats row)
   \<and> (\<forall>j \<in> set (approve_ids (fst (handleBulkApprove reply (Some td) sel))).
        \<exists>r \<in> set (images td). \<exists>cat \<in> set (table_categories td). \<exists>c.
          annotations r cat = Some c \<and> annotation_id c = j \<and> cell_review_status c = None)"
proof -
  have 1: "\<forall>a'. approve_row a = Inr a' \<longrightarrow>
        (row_review_status a = None \<or> row_review_status a = Some ReworkCompleted)
        \<and> a' = a\<lparr>row_review_status := Some Approved\<rparr>"
    using approve_row_ok by blast
  have 2: "row_review_status a = Some Approved \<longrightarrow> approve_row a = Inl StateError"
    by (simp add: approve_row_approved)
  have 3: "db i = Some a \<and> row_review_status a = Some Approved \<longrightarrow>
        Approve db i = Inl StateError
        \<and> list_all (\<lambda>p. fst p = i \<longrightarrow> snd p = Some StateError) (fst (approve_run db ids))
        \<and> i \<notin> set (successes (fst (approve_run db ids)))
        \<and> snd (approve_run db ids) i = Some a"
    using Approve_approved [of db i a] approve_run_approved [of db i a ids]
      successes_not_approved [of db i a ids] by blast
  have 4: "distinct (successes (fst (approve_run db ids)))" by (rule successes_distinct)
  have 5: "list_all (\<lambda>c. cell_review_status c \<noteq> Some Approved) (pendingAnnotations cats row)"
    by (rule pendingAnnotations_not_approved)
  have 6: "set (approve_ids (handleApproveAll reply cats row edits))
        \<subseteq> annotation_id ` set (pendingAnnotations cats row)"
    unfolding handleApproveAll_def by (rule approve_each_ids)
  have 7: "\<forall>j \<in> set (approve_ids (fst (handleBulkApprove reply (Some td) sel))).
        \<exists>r \<in> set (images td). \<exists>cat \<in> set (table_categories td). \<exists>c.
          annotations r cat = Some c \<and> annotation_id c = j \<and> cell_review_status c = None"
    unfolding bulk_ids using bulk_requests_pending row_requests_pending by blast
  from 1 2 3 4 5 6 7 show ?thesis by blast
qed

lemma ex_db_facts: "ex_db 11 = Some ex_approved" "row_review_status ex_approved = Some Approved"
  by (simp_all add: ex_db_def ex_approved_def)

theorem approve_never_reapproves_witness:
  "ex_db 11 = Some ex_approved \<and> row_review_status ex_approved = Some Approved
   \<and> Approve ex_db 11 = Inl StateError
   \<and> fst (approve_run ex_db [11, 12, 11, 12])
       = [(11, Some StateError), (12, None), (11, Some StateError), (12, Some StateError)]
   \<and> snd (approve_run ex_db [11, 12, 11, 12]) 11 = Some ex_approved"
proof -
  have r: "fst (approve_run ex_db [11, 12, 11, 12])
       = [(11, Some StateError), (12, None), (11, Some StateError), (12, Some StateError)]"
    by (simp add: Approve_def approve_row_def ex_db_def ex_approved_def ex_submitted_def)
  from approve_never_reapproves [where db = ex_db and i = 11 and a = ex_approved
      and ids = "[11, 12, 11, 12]"] ex_db_facts r
  show ?thesis by blast
qed

section \<open>Properties of the review engine\<close>

subsection \<open>Elapsed time\<close>

lemma persistTime_sends:
  "persistTime imgId seconds = (case imgId of None \<Rightarrow> [] | Some i \<Rightarrow> if 0 < seconds then [PatchTime i seconds] else [])"
  by (simp add: persistTime_def split: option.splits)


lemma RecordElapsed_cap: "capForMode cfg (RecordElapsed cfg a r) = capForMode cfg a"
  by (simp add: RecordElapsed_def capForMode_def)



lemma record_run_cap: "capForMode cfg (record_run cfg a rs) = capForMode cfg a"
  by (induction rs arbitrary: a) (simp_all add: RecordElapsed_cap)







subsection \<open>Queue exhaustion\<close>

lemma ResumeIndex_le: "ResumeIndex q \<le> length q"
  by (induction q) simp_all



























end
